theory Spec2Isabelle
  imports Complex_Main "HOL-Library.Word" "HOL-Library.Log_Nat"
begin

section \<open>The OpenGL ES 2 video output of \<^verbatim>\<open>gles2.c\<close>\<close>

text \<open>
  A shallow embedding of \<^verbatim>\<open>src/gles2.c\<close>. C structs are records, C \<^verbatim>\<open>unsigned\<close> is
  \<open>32 word\<close>, C \<^verbatim>\<open>int\<close> is \<open>int\<close>, a C floating-point value is an \<open>ieee\<close> value as
  defined below, and every call into an
  external library (OpenGL ES, EGL, Xlib, the VLC core, stderr) is an entry of a call
  trace, in program order.
\<close>

subsection \<open>IEEE 754 arithmetic on non-negative values\<close>

text \<open>
  \<^verbatim>\<open>compute_bounding_box\<close> divides, multiplies and compares C doubles whose operands all
  come from \<^verbatim>\<open>unsigned\<close> values, so no negative number occurs. A double is a non-negative
  rational, \<open>+\<infinity>\<close> or a NaN. An arithmetic result is rounded to 53 significant bits
  (binary64), to nearest, ties to even (the default rounding mode), and evaluated in that
  format (\<^verbatim>\<open>FLT_EVAL_METHOD\<close> 0). Operands that come from 32-bit integers keep every
  quotient and product between \<open>2\<^sup>-\<^sup>3\<^sup>2\<close> and \<open>2\<^sup>6\<^sup>4\<close>, or make it exactly zero, so neither
  overflow nor the subnormal range is reached, in binary64 as in binary32, and neither is
  modelled.
\<close>

datatype ieee = Finite rat | PosInf | NaN

type_synonym double = ieee
type_synonym GLfloat = ieee

text \<open>\<open>expo q\<close> is the binary exponent of a positive rational: \<open>2\<^sup>e \<le> q < 2\<^sup>e\<^sup>+\<^sup>1\<close>.\<close>

definition expo :: "rat \<Rightarrow> int" where
  "expo q =
     (let (a, b) = quotient_of q;
          e0 = bitlen a - bitlen b
      in if 2 powi e0 \<le> q then e0 else e0 - 1)"

text \<open>Rounding to the nearest integer, ties to the even one.\<close>

definition round_even :: "rat \<Rightarrow> int" where
  "round_even v =
     (let f = \<lfloor>v\<rfloor>; d = v - of_int f
      in if d < 1 / 2 then f
         else if 1 / 2 < d then f + 1
         else if even f then f else f + 1)"

text \<open>Rounding a non-negative rational to \<open>p\<close> significant bits: the unit in the last
  place of \<open>q\<close> is \<open>2\<^sup>e\<^sup>-\<^sup>p\<^sup>+\<^sup>1\<close>. Binary64 has 53 significant bits, binary32 has 24.\<close>

definition round_to :: "nat \<Rightarrow> rat \<Rightarrow> rat" where
  "round_to p q =
     (if q \<le> 0 then 0
      else let u = 2 powi (expo q - (int p - 1)) in of_int (round_even (q / u)) * u)"

text \<open>The unit in the last place of \<open>q\<close> at \<open>p\<close> significant bits, the spacing of the
  representable values around \<open>q\<close>.\<close>

definition ulp :: "nat \<Rightarrow> rat \<Rightarrow> rat" where
  "ulp p q = 2 powi (expo q - (int p - 1))"

text \<open>The conversion of a double to \<^verbatim>\<open>float\<close>, as in passing it for a \<^verbatim>\<open>GLfloat\<close>.\<close>

fun float_of_double :: "double \<Rightarrow> GLfloat" where
  "float_of_double (Finite q) = Finite (round_to 24 q)"
| "float_of_double PosInf = PosInf"
| "float_of_double NaN = NaN"

text \<open>\<^verbatim>\<open>(double)n\<close> for an \<^verbatim>\<open>unsigned\<close> \<open>n\<close>: exact, since \<open>n < 2\<^sup>3\<^sup>2\<close>.\<close>

definition double_of_unsigned :: "32 word \<Rightarrow> double" where
  "double_of_unsigned n = Finite (of_nat (unat n))"

text \<open>\<open>a / b\<close>. A non-zero value divided by zero is \<open>+\<infinity>\<close>, \<open>0 / 0\<close> and \<open>\<infinity> / \<infinity>\<close> are NaN.\<close>

fun ddiv :: "double \<Rightarrow> double \<Rightarrow> double" where
  "ddiv NaN _ = NaN"
| "ddiv _ NaN = NaN"
| "ddiv PosInf PosInf = NaN"
| "ddiv PosInf (Finite b) = PosInf"
| "ddiv (Finite a) PosInf = Finite 0"
| "ddiv (Finite a) (Finite b) =
     (if b = 0 then (if a = 0 then NaN else PosInf) else Finite (round_to 53 (a / b)))"

text \<open>\<open>a * b\<close>. \<open>0 * \<infinity>\<close> is NaN.\<close>

fun dmul :: "double \<Rightarrow> double \<Rightarrow> double" where
  "dmul NaN _ = NaN"
| "dmul _ NaN = NaN"
| "dmul PosInf PosInf = PosInf"
| "dmul PosInf (Finite b) = (if b = 0 then NaN else PosInf)"
| "dmul (Finite a) PosInf = (if a = 0 then NaN else PosInf)"
| "dmul (Finite a) (Finite b) = Finite (round_to 53 (a * b))"

text \<open>\<open>a < b\<close>; every comparison with a NaN is false. \<open>a > b\<close> is \<open>dlt b a\<close>.\<close>

fun dlt :: "double \<Rightarrow> double \<Rightarrow> bool" where
  "dlt NaN _ = False"
| "dlt _ NaN = False"
| "dlt PosInf _ = False"
| "dlt (Finite a) PosInf = True"
| "dlt (Finite a) (Finite b) = (a < b)"

definition dgt :: "double \<Rightarrow> double \<Rightarrow> bool" where
  "dgt a b = dlt b a"

text \<open>
  \<^verbatim>\<open>(unsigned)d\<close>: the fractional part is discarded. If the integral part cannot be
  represented in \<^verbatim>\<open>unsigned\<close> the behaviour is undefined (C11 6.3.1.4): \<open>None\<close>.
\<close>

fun unsigned_of_double :: "double \<Rightarrow> 32 word option" where
  "unsigned_of_double (Finite q) =
     (if \<lfloor>q\<rfloor> < 2 ^ 32 then Some (word_of_int \<lfloor>q\<rfloor>) else None)"
| "unsigned_of_double PosInf = None"
| "unsigned_of_double NaN = None"

subsection \<open>Geometry: \<^verbatim>\<open>compute_bounding_box\<close>\<close>

record rectangle_t =
  r_x :: "32 word"
  r_y :: "32 word"
  r_width :: "32 word"
  r_height :: "32 word"

text \<open>Of \<^verbatim>\<open>vout_display_cfg_t\<close> only \<^verbatim>\<open>display.width\<close> and \<^verbatim>\<open>display.height\<close> are read.\<close>

record vout_display_cfg_t =
  display_width :: "32 word"
  display_height :: "32 word"

text \<open>
  \<^verbatim>\<open>compute_bounding_box(cfg, dst, res)\<close> writes the rectangle \<^verbatim>\<open>*res\<close>; the model takes the
  old contents of \<^verbatim>\<open>*res\<close> and returns the new ones, assigning the fields in the order of
  the source (\<^verbatim>\<open>res->y\<close> and \<^verbatim>\<open>res->x\<close> read the field written just before). \<open>None\<close>
  is undefined behaviour in a conversion from double to unsigned.
\<close>

definition compute_bounding_box ::
  "vout_display_cfg_t \<Rightarrow> rectangle_t \<Rightarrow> rectangle_t \<Rightarrow> rectangle_t option" where
  "compute_bounding_box cfg dst res =
     (let src = \<lparr>r_x = 0, r_y = 0, r_width = display_width cfg, r_height = display_height cfg\<rparr>;
          src_ratio = ddiv (double_of_unsigned (r_width src)) (double_of_unsigned (r_height src));
          dst_ratio = ddiv (double_of_unsigned (r_width dst)) (double_of_unsigned (r_height dst))
      in if dgt src_ratio dst_ratio then
           (let res = res\<lparr>r_width := r_width dst\<rparr>
            in case unsigned_of_double (ddiv (double_of_unsigned (r_width dst)) src_ratio) of
                 None \<Rightarrow> None
               | Some h \<Rightarrow>
                   (let res = res\<lparr>r_height := h\<rparr>;
                        res = res\<lparr>r_x := 0\<rparr>;
                        res = res\<lparr>r_y := (r_height dst - r_height res) div 2\<rparr>
                    in Some res))
         else if dlt src_ratio dst_ratio then
           (case unsigned_of_double (dmul (double_of_unsigned (r_height dst)) src_ratio) of
              None \<Rightarrow> None
            | Some w \<Rightarrow>
                (let res = res\<lparr>r_width := w\<rparr>;
                     res = res\<lparr>r_height := r_height dst\<rparr>;
                     res = res\<lparr>r_x := (r_width dst - r_width res) div 2\<rparr>;
                     res = res\<lparr>r_y := 0\<rparr>
                 in Some res))
         else
           (let res = res\<lparr>r_width := r_width dst\<rparr>;
                res = res\<lparr>r_height := r_height dst\<rparr>;
                res = res\<lparr>r_y := 0\<rparr>;
                res = res\<lparr>r_x := 0\<rparr>
            in Some res))"

subsection \<open>Calls into the external libraries\<close>

text \<open>
  Object names (GL shader, program, texture and framebuffer names, EGL handles) are
  natural numbers, \<open>0\<close> being the null handle (\<^verbatim>\<open>NULL\<close>, \<^verbatim>\<open>EGL_NO_SURFACE\<close>, \<dots>).
  Locations (\<^verbatim>\<open>GLint\<close>) are integers. A call that returns a value carries that value as its
  last argument. The three GLSL sources of \<^verbatim>\<open>shader_load\<close> are named, not spelt out.
\<close>

datatype shader_types = SHADER_TYPE_DEINT_LINEAR | SHADER_TYPE_COPY

datatype gl_shader_kind = GL_VERTEX_SHADER | GL_FRAGMENT_SHADER

datatype glsl_source = vertex | fragment_copy | fragment_deint

datatype gl_pname = GL_COMPILE_STATUS | GL_LINK_STATUS | GL_INFO_LOG_LENGTH

datatype gl_format = GL_LUMINANCE | GL_RGB

datatype (plugins only: code size) call =
    eglDestroyContext nat nat
  | eglDestroySurface nat nat
  | eglTerminate nat
  | eglSwapBuffers nat nat
  | c_free
  | quirk_close_forgotten_handles
  | fprintf_stderr string
  | XNextEvent
  | vlc_fourcc_GetDescription string
  | picture_Release
  | subpicture_Delete
  | glCreateProgram nat
  | glCreateShader gl_shader_kind nat
  | glShaderSource nat glsl_source
  | glCompileShader nat
  | glGetShaderiv nat gl_pname
  | glGetShaderInfoLog nat
  | glDeleteShader nat
  | glDeleteProgram nat
  | glAttachShader nat nat
  | glBindAttribLocation nat nat string
  | glLinkProgram nat
  | glGetProgramiv nat gl_pname
  | glGetProgramInfoLog nat
  | glUseProgram nat
  | glGetAttribLocation nat string
  | glGetUniformLocation nat string
  | glClearColor
  | glGetError
  | glActiveTexture nat
  | glBindTexture nat
  | glPixelStorei_UNPACK_ROW_LENGTH int
  | glTexImage2D gl_format int int gl_format "8 word list"
  | glUniform1i int int
  | glUniform1f int GLfloat
  | glBindFramebuffer nat
  | glViewport "32 word" "32 word" "32 word" "32 word"
  | glVertexAttribPointer int nat nat "rat list"
  | glEnableVertexAttribArray int
  | glDrawElements nat "nat list"
  | glClear

subsection \<open>Resource context teardown: \<^verbatim>\<open>egl_backend_destroy\<close>\<close>

record egl_backend_t =
  egl_display :: nat
  egl_surface :: nat
  egl_context :: nat

text \<open>
  The argument is a pointer: \<open>None\<close> is \<^verbatim>\<open>NULL\<close>. The function returns nothing and frees
  the struct, so the model returns the calls it made. The struct's fields are set to
  \<^verbatim>\<open>NULL\<close> as the source does, each step working on the struct the step before left.
\<close>

definition egl_destroy_context :: "egl_backend_t \<Rightarrow> egl_backend_t \<times> call list" where
  "egl_destroy_context egl =
     (if egl_context egl \<noteq> 0
      then (egl\<lparr>egl_context := 0\<rparr>, [eglDestroyContext (egl_display egl) (egl_context egl)])
      else (egl, []))"

definition egl_destroy_surface :: "egl_backend_t \<Rightarrow> egl_backend_t \<times> call list" where
  "egl_destroy_surface egl =
     (if egl_surface egl \<noteq> 0
      then (egl\<lparr>egl_surface := 0\<rparr>, [eglDestroySurface (egl_display egl) (egl_surface egl)])
      else (egl, []))"

definition egl_terminate :: "egl_backend_t \<Rightarrow> egl_backend_t \<times> call list" where
  "egl_terminate egl =
     (if egl_display egl \<noteq> 0
      then (egl\<lparr>egl_display := 0\<rparr>, [eglTerminate (egl_display egl)])
      else (egl, []))"

definition egl_backend_destroy :: "egl_backend_t option \<Rightarrow> call list" where
  "egl_backend_destroy p =
     (case p of
        None \<Rightarrow> []
      | Some egl \<Rightarrow>
          (let (egl, t1) = egl_destroy_context egl;
               (egl, t2) = egl_destroy_surface egl;
               (egl, t3) = egl_terminate egl
           in t1 @ t2 @ t3 @ [c_free, quirk_close_forgotten_handles]))"

text \<open>The order of teardown in the words of the specification: surface, context, display.\<close>

definition spec_teardown_order :: "egl_backend_t \<Rightarrow> call list" where
  "spec_teardown_order egl =
     [eglDestroySurface (egl_display egl) (egl_surface egl),
      eglDestroyContext (egl_display egl) (egl_context egl),
      eglTerminate (egl_display egl)]"

text \<open>The calls of a trace that destroy an EGL object.\<close>

fun is_egl_destroy :: "call \<Rightarrow> bool" where
  "is_egl_destroy (eglDestroyContext d c) = True"
| "is_egl_destroy (eglDestroySurface d s) = True"
| "is_egl_destroy (eglTerminate d) = True"
| "is_egl_destroy _ = False"

text \<open>The object a call destroys, if it destroys one.\<close>

fun destroyed_handle :: "call \<Rightarrow> nat option" where
  "destroyed_handle (eglDestroyContext d c) = Some c"
| "destroyed_handle (eglDestroySurface d s) = Some s"
| "destroyed_handle (eglTerminate d) = Some d"
| "destroyed_handle _ = None"

subsection \<open>Shader programs: \<^verbatim>\<open>shader_delete\<close>, \<^verbatim>\<open>shader_load_source\<close>, \<^verbatim>\<open>shader_load\<close>, \<^verbatim>\<open>shader_init\<close>\<close>

record gl_shader_t =
  sh_program :: nat
  sh_vertex :: nat
  sh_fragment :: nat
  sh_position_loc :: int
  sh_texcoord_loc :: int

text \<open>
  What the GL implementation answers during one \<^verbatim>\<open>shader_init\<close>: the names it hands out
  (\<open>0\<close> on failure), the compile status and the length of the info log of each source,
  the error code \<^verbatim>\<open>glGetError\<close> reports after attaching each shader (\<open>0\<close> is
  \<^verbatim>\<open>GL_NO_ERROR\<close>), the link status, the length of the program's info log, and the
  attribute locations.
\<close>

record gl_driver =
  drv_glCreateProgram :: nat
  drv_glCreateShader :: "gl_shader_kind \<Rightarrow> nat"
  drv_compile_status :: "glsl_source \<Rightarrow> bool"
  drv_shader_log_length :: "glsl_source \<Rightarrow> int"
  drv_attach_error :: "gl_shader_kind \<Rightarrow> nat"
  drv_link_status :: bool
  drv_program_log_length :: int
  drv_glGetAttribLocation :: "string \<Rightarrow> int"

definition shader_delete :: "gl_shader_t \<Rightarrow> gl_shader_t \<times> call list" where
  "shader_delete shader =
     (let (shader, t1) =
            (if sh_vertex shader \<noteq> 0
             then (shader\<lparr>sh_vertex := 0\<rparr>, [glDeleteShader (sh_vertex shader)])
             else (shader, []));
          (shader, t2) =
            (if sh_fragment shader \<noteq> 0
             then (shader\<lparr>sh_fragment := 0\<rparr>, [glDeleteShader (sh_fragment shader)])
             else (shader, []));
          (shader, t3) =
            (if sh_program shader \<noteq> 0
             then (shader\<lparr>sh_program := 0\<rparr>, [glDeleteProgram (sh_program shader)])
             else (shader, []))
      in (shader, t1 @ t2 @ t3))"

text \<open>Returns the shader's name, or \<open>0\<close> after deleting what it created.\<close>

definition shader_load_source :: "gl_driver \<Rightarrow> glsl_source \<Rightarrow> gl_shader_kind \<Rightarrow> nat \<times> call list" where
  "shader_load_source drv src type =
     (let s = drv_glCreateShader drv type
      in if s = 0 then
           (0, [glCreateShader type s, fprintf_stderr ''ERR: %s: glCreateShader failed''])
         else
           (let t = [glCreateShader type s, glShaderSource s src, glCompileShader s,
                     glGetShaderiv s GL_COMPILE_STATUS]
            in if \<not> drv_compile_status drv src then
                 (0, t @ [glGetShaderiv s GL_INFO_LOG_LENGTH]
                      @ (if 0 < drv_shader_log_length drv src
                         then [glGetShaderInfoLog s, fprintf_stderr ''ERR: %s'']
                         else [])
                      @ [glDeleteShader s])
               else (s, t)))"

definition shader_load ::
  "gl_driver \<Rightarrow> gl_shader_t \<Rightarrow> shader_types \<Rightarrow> int \<times> gl_shader_t \<times> call list" where
  "shader_load drv shader type =
     (let fragment = (if type = SHADER_TYPE_DEINT_LINEAR then fragment_deint else fragment_copy);
          (v, t1) = shader_load_source drv vertex GL_VERTEX_SHADER;
          shader = shader\<lparr>sh_vertex := v\<rparr>
      in if sh_vertex shader = 0 then
           (- 1, shader, t1 @ [fprintf_stderr ''ERR: %s: shader_load_source(vertex) failed''])
         else
           (let (f, t2) = shader_load_source drv fragment GL_FRAGMENT_SHADER;
                shader = shader\<lparr>sh_fragment := f\<rparr>
            in if sh_fragment shader = 0 then
                 (- 1, shader,
                  t1 @ t2 @ [fprintf_stderr ''ERR: %s: shader_load_source(fragment) failed''])
               else (0, shader, t1 @ t2)))"

text \<open>The label \<^verbatim>\<open>failure:\<close> of \<^verbatim>\<open>shader_init\<close>, reached with the calls made so far.\<close>

definition shader_init_failure :: "gl_shader_t \<Rightarrow> call list \<Rightarrow> int \<times> gl_shader_t \<times> call list" where
  "shader_init_failure shader tr =
     (let (shader, td) = shader_delete shader
      in (- 1, shader, tr @ [glGetError, fprintf_stderr ''ERR: %s: oh no!!! %d''] @ td))"

definition shader_init ::
  "gl_driver \<Rightarrow> gl_shader_t \<Rightarrow> shader_types \<Rightarrow> int \<times> gl_shader_t \<times> call list" where
  "shader_init drv shader type =
     (let shader = shader\<lparr>sh_program := drv_glCreateProgram drv\<rparr>;
          t0 = [glCreateProgram (sh_program shader)]
      in if sh_program shader = 0 then
           (- 1, shader, t0 @ [glGetError, fprintf_stderr ''ERR: %s: glCreateProgram failed %d''])
         else
           (let (ret, shader, t1) = shader_load drv shader type
            in if ret < 0 then
                 shader_init_failure shader
                   (t0 @ t1 @ [fprintf_stderr ''ERR: %s: shader_load failed''])
               else
                 (let t2 = [glAttachShader (sh_program shader) (sh_vertex shader), glGetError]
                  in if drv_attach_error drv GL_VERTEX_SHADER \<noteq> 0 then
                       shader_init_failure shader
                         (t0 @ t1 @ t2 @ [fprintf_stderr ''ERR: %s: glAttachShader(vertex) failed %d''])
                     else
                       (let t3 = [glAttachShader (sh_program shader) (sh_fragment shader), glGetError]
                        in if drv_attach_error drv GL_FRAGMENT_SHADER \<noteq> 0 then
                             shader_init_failure shader
                               (t0 @ t1 @ t2 @ t3
                                @ [fprintf_stderr ''ERR: %s: glAttachShader(fragment) failed %d''])
                           else
                             (let t4 = [glBindAttribLocation (sh_program shader) 0 ''vPosition'',
                                        glLinkProgram (sh_program shader),
                                        glGetProgramiv (sh_program shader) GL_LINK_STATUS];
                                  t5 = (if \<not> drv_link_status drv then
                                          [glGetProgramiv (sh_program shader) GL_INFO_LOG_LENGTH]
                                          @ (if 0 < drv_program_log_length drv
                                             then [glGetProgramInfoLog (sh_program shader),
                                                   fprintf_stderr ''ERR: %s: %s'']
                                             else [])
                                          @ [glDeleteProgram (sh_program shader)]
                                        else []);
                                  t6 = [glUseProgram (sh_program shader)];
                                  shader = shader\<lparr>sh_position_loc :=
                                             drv_glGetAttribLocation drv ''vPosition''\<rparr>;
                                  shader = shader\<lparr>sh_texcoord_loc :=
                                             drv_glGetAttribLocation drv ''aTexcoord''\<rparr>;
                                  t7 = [glGetAttribLocation (sh_program shader) ''vPosition'',
                                        glGetAttribLocation (sh_program shader) ''aTexcoord'',
                                        glClearColor]
                              in (0, shader, t0 @ t1 @ t2 @ t3 @ t4 @ t5 @ t6 @ t7))))))"

text \<open>
  The GL objects a trace leaves behind, as a mock GL layer that counts creations and
  deletions sees them: the shader names and the program names created and not deleted.
\<close>

fun live_step :: "nat set \<times> nat set \<Rightarrow> call \<Rightarrow> nat set \<times> nat set" where
  "live_step (sh, pr) (glCreateShader k s) = (if s = 0 then sh else insert s sh, pr)"
| "live_step (sh, pr) (glCreateProgram p) = (sh, if p = 0 then pr else insert p pr)"
| "live_step (sh, pr) (glDeleteShader s) = (sh - {s}, pr)"
| "live_step (sh, pr) (glDeleteProgram p) = (sh, pr - {p})"
| "live_step (sh, pr) _ = (sh, pr)"

definition live_objects :: "call list \<Rightarrow> nat set \<times> nat set" where
  "live_objects tr = foldl live_step ({}, {}) tr"

text \<open>A GL implementation in which everything succeeds but the link.\<close>

definition link_failing_driver :: gl_driver where
  "link_failing_driver =
     \<lparr>drv_glCreateProgram = 1,
      drv_glCreateShader = (\<lambda>k. if k = GL_VERTEX_SHADER then 2 else 3),
      drv_compile_status = (\<lambda>_. True),
      drv_shader_log_length = (\<lambda>_. 0),
      drv_attach_error = (\<lambda>_. 0),
      drv_link_status = False,
      drv_program_log_length = 0,
      drv_glGetAttribLocation = (\<lambda>n. if n = ''vPosition'' then 0 else 1)\<rparr>"

subsection \<open>Pictures and the display's state\<close>

text \<open>A field whose bare name would be taken for a variable carries a prefix naming
  its struct: \<open>pic_p\<close> is \<^verbatim>\<open>picture_t.p\<close>, \<open>gl_tex\<close> is \<^verbatim>\<open>opengl_es2_t.tex\<close>, \<open>sys_gl\<close> is
  \<^verbatim>\<open>vout_display_sys_t.gl\<close>, \<open>vd_fmt\<close> is \<^verbatim>\<open>vout_display_t.fmt\<close>, and so on.\<close>

type_synonym vlc_fourcc_t = string

definition VLC_CODEC_I420 :: vlc_fourcc_t where
  "VLC_CODEC_I420 = ''I420''"

record video_format_t =
  i_chroma :: vlc_fourcc_t
  i_width :: "32 word"
  i_height :: "32 word"
  i_visible_width :: "32 word"
  i_visible_height :: "32 word"

text \<open>\<open>p_pixels\<close> is the memory from the pointer \<^verbatim>\<open>p_pixels\<close> to the end of the plane's
  allocation.\<close>

record plane_t =
  p_pixels :: "8 word list"
  i_pitch :: int
  i_pixel_pitch :: int
  i_visible_lines :: int
  i_visible_pitch :: int

record picture_t =
  pic_format :: video_format_t
  pic_p :: "plane_t list"
  i_planes :: int

text \<open>\<^verbatim>\<open>vlc_chroma_description_t\<close>: per plane, the width and height of the plane as fractions
  of the picture's.\<close>

record vlc_rational_t =
  rat_num :: "32 word"
  rat_den :: "32 word"

record chroma_plane_t =
  cp_w :: vlc_rational_t
  cp_h :: vlc_rational_t

type_synonym vlc_chroma_description_t = "chroma_plane_t list"

record gl_texture_t =
  tex_id :: nat
  tex_loc :: int

record opengl_es2_t =
  gl_framebuffer :: nat
  gl_deint :: gl_shader_t
  gl_scale :: gl_shader_t
  gl_tex :: "gl_texture_t list"
  gl_rgb_tex :: gl_texture_t
  gl_viewport :: rectangle_t
  gl_has_unpack_row :: bool

datatype XEvent = ConfigureNotify int int | OtherEvent

text \<open>\<open>x11_pending\<close> is the queue of the X connection \<^verbatim>\<open>x11->display\<close>: the events that
  \<^verbatim>\<open>XPending\<close> and \<^verbatim>\<open>XNextEvent\<close> will deliver, in order.\<close>

record x11_backend_t =
  x11_pending :: "XEvent list"
  x11_window :: nat
  x11_rect :: rectangle_t
  x11_external :: bool

record vout_display_t =
  vd_cfg :: vout_display_cfg_t
  vd_fmt :: video_format_t

record vout_display_sys_t =
  sys_vd :: vout_display_t
  sys_x11 :: x11_backend_t
  sys_egl :: egl_backend_t
  sys_gl :: opengl_es2_t

text \<open>
  What the environment answers during one frame: \<^verbatim>\<open>vlc_fourcc_GetChromaDescription\<close>
  (\<open>None\<close> is \<^verbatim>\<open>NULL\<close>) and \<^verbatim>\<open>glGetUniformLocation\<close>.
\<close>

record frame_env =
  env_GetChromaDescription :: "vlc_fourcc_t \<Rightarrow> vlc_chroma_description_t option"
  env_glGetUniformLocation :: "nat \<Rightarrow> string \<Rightarrow> int"

subsection \<open>Texture upload: \<^verbatim>\<open>update_textures_complex\<close>, \<^verbatim>\<open>update_textures_simple\<close>\<close>

text \<open>C division of \<^verbatim>\<open>int\<close>s truncates towards zero; the divisor is not zero here.\<close>

definition c_div :: "int \<Rightarrow> int \<Rightarrow> int" where
  "c_div a b = sgn a * sgn b * (\<bar>a\<bar> div \<bar>b\<bar>)"

text \<open>
  \<^verbatim>\<open>for (unsigned i = i0; i < n; i++)\<close> over a body that makes calls; \<open>None\<close> is undefined
  behaviour in the body.
\<close>

function for_loop :: "nat \<Rightarrow> nat \<Rightarrow> (nat \<Rightarrow> call list option) \<Rightarrow> call list option" where
  "for_loop i n body =
     (if i < n then
        (case body i of
           None \<Rightarrow> None
         | Some t \<Rightarrow> (case for_loop (Suc i) n body of None \<Rightarrow> None | Some ts \<Rightarrow> Some (t @ ts)))
      else Some [])"
  by pat_completeness auto
termination
  by (relation "measure (\<lambda>(i, n, body). n - i)") auto

declare for_loop.simps [simp del]

text \<open>The comparison \<^verbatim>\<open>i < p->i_planes\<close> converts the \<^verbatim>\<open>int\<close> to \<^verbatim>\<open>unsigned\<close>.\<close>

definition unsigned_of_int :: "int \<Rightarrow> nat" where
  "unsigned_of_int v = nat (v mod 2 ^ 32)"

text \<open>\<^verbatim>\<open>memcpy(dst, src, line)\<close> reads \<open>line\<close> bytes at offset \<open>off\<close> of the plane's memory;
  outside it, the behaviour is undefined.\<close>

definition memcpy_src :: "8 word list \<Rightarrow> int \<Rightarrow> nat \<Rightarrow> 8 word list option" where
  "memcpy_src px off line =
     (if 0 \<le> off \<and> nat off + line \<le> length px then Some (take line (drop (nat off) px))
      else None)"

text \<open>
  The expressions of the loop over the planes: \<^verbatim>\<open>rows\<close> and \<^verbatim>\<open>line\<close> (in \<^verbatim>\<open>unsigned\<close>
  arithmetic), and \<^verbatim>\<open>p->p[i].i_pitch / p->p[i].i_pixel_pitch\<close>, by which the compacting path
  advances \<^verbatim>\<open>src\<close> and which the direct path hands to the GL as the row length.
\<close>

definition plane_rows :: "vlc_chroma_description_t \<Rightarrow> video_format_t \<Rightarrow> nat \<Rightarrow> 32 word" where
  "plane_rows c f i = i_visible_height f * rat_num (cp_h (c ! i)) div rat_den (cp_h (c ! i))"

definition plane_line :: "vlc_chroma_description_t \<Rightarrow> video_format_t \<Rightarrow> nat \<Rightarrow> 32 word" where
  "plane_line c f i = i_visible_width f * rat_num (cp_w (c ! i)) div rat_den (cp_w (c ! i))"

definition plane_stride :: "plane_t \<Rightarrow> int" where
  "plane_stride pl = c_div (i_pitch pl) (i_pixel_pitch pl)"

text \<open>
  The inner loop of \<^verbatim>\<open>update_textures_complex\<close> over the rows of the plane \<open>pl\<close>, \<open>n\<close> rows
  to go, \<^verbatim>\<open>src\<close> at offset \<open>off\<close> of the plane's memory: each row is copied to \<^verbatim>\<open>dst\<close>, then
  \<^verbatim>\<open>src\<close> advances by \<^verbatim>\<open>i_pitch / i_pixel_pitch\<close> and \<^verbatim>\<open>dst\<close> by \<open>line\<close>. The division is made
  in every iteration, after the copy: a pixel pitch of zero is undefined behaviour as soon
  as there is one row, and not before. The result is what the loop leaves in \<^verbatim>\<open>buf\<close>.
\<close>

fun copy_rows :: "plane_t \<Rightarrow> nat \<Rightarrow> nat \<Rightarrow> int \<Rightarrow> 8 word list option" where
  "copy_rows pl line 0 off = Some []"
| "copy_rows pl line (Suc n) off =
     (case memcpy_src (p_pixels pl) off line of
        None \<Rightarrow> None
      | Some row \<Rightarrow>
          (if i_pixel_pitch pl = 0 then None
           else
             (case copy_rows pl line n (off + plane_stride pl) of
                None \<Rightarrow> None
              | Some rest \<Rightarrow> Some (row @ rest))))"

text \<open>
  One iteration of the loop over the planes. Undefined behaviour: an index outside
  \<^verbatim>\<open>c->p\<close>, \<^verbatim>\<open>p->p\<close> or \<^verbatim>\<open>gl->tex\<close>, a division by zero, a product \<^verbatim>\<open>line * rows\<close> that
  wraps around (the buffer is then smaller than what is copied into it), a read outside
  the plane.
\<close>

definition update_textures_complex_plane ::
  "vlc_chroma_description_t \<Rightarrow> video_format_t \<Rightarrow> opengl_es2_t \<Rightarrow> picture_t \<Rightarrow> nat
     \<Rightarrow> call list option" where
  "update_textures_complex_plane c f g pic i =
     (if i < length c \<and> i < length (pic_p pic) \<and> i < length (gl_tex g) then
        (if rat_den (cp_h (c ! i)) = 0 \<or> rat_den (cp_w (c ! i)) = 0 then None
         else
           (let rows = plane_rows c f i;
                line = plane_line c f i
            in if 2 ^ 32 \<le> unat line * unat rows then None
               else
                 (case copy_rows (pic_p pic ! i) (unat line) (unat rows) 0 of
                    None \<Rightarrow> None
                  | Some buf \<Rightarrow>
                      Some [glActiveTexture i,
                            glBindTexture (tex_id (gl_tex g ! i)),
                            glTexImage2D GL_LUMINANCE (sint line) (sint rows) GL_LUMINANCE buf,
                            glUniform1i (tex_loc (gl_tex g ! i)) (int i)])))
      else None)"

text \<open>
  \<open>static_c\<close> is the function's static variable \<^verbatim>\<open>c\<close> on entry; its value on exit is
  returned with the calls. A null \<^verbatim>\<open>c\<close> is dereferenced as soon as the loop runs once.
\<close>

definition update_textures_complex ::
  "frame_env \<Rightarrow> vlc_chroma_description_t option \<Rightarrow> vout_display_sys_t \<Rightarrow> picture_t
     \<Rightarrow> (vlc_chroma_description_t option \<times> call list) option" where
  "update_textures_complex env static_c vout pic =
     (let f = vd_fmt (sys_vd vout);
          g = sys_gl vout;
          c = (case static_c of None \<Rightarrow> env_GetChromaDescription env (i_chroma f) | Some d \<Rightarrow> Some d)
      in case for_loop 0 (unsigned_of_int (i_planes pic))
                (\<lambda>i. case c of None \<Rightarrow> None
                             | Some d \<Rightarrow> update_textures_complex_plane d f g pic i) of
           None \<Rightarrow> None
         | Some t \<Rightarrow> Some (c, [fprintf_stderr ''> %s()''] @ t @ [fprintf_stderr ''< %s()'']))"

definition update_textures_simple_plane :: "opengl_es2_t \<Rightarrow> picture_t \<Rightarrow> nat \<Rightarrow> call list option" where
  "update_textures_simple_plane g pic i =
     (if i < length (pic_p pic) \<and> i < length (gl_tex g) then
        (if i_pixel_pitch (pic_p pic ! i) = 0 then None
         else
           Some [glActiveTexture i,
                 glBindTexture (tex_id (gl_tex g ! i)),
                 glPixelStorei_UNPACK_ROW_LENGTH (plane_stride (pic_p pic ! i)),
                 glTexImage2D GL_LUMINANCE (i_visible_pitch (pic_p pic ! i)) (i_visible_lines (pic_p pic ! i))
                   GL_LUMINANCE (p_pixels (pic_p pic ! i)),
                 glUniform1i (tex_loc (gl_tex g ! i)) (int i)])
      else None)"

definition update_textures_simple :: "vout_display_sys_t \<Rightarrow> picture_t \<Rightarrow> call list option" where
  "update_textures_simple vout pic =
     (let g = sys_gl vout
      in case for_loop 0 (unsigned_of_int (i_planes pic)) (update_textures_simple_plane g pic) of
           None \<Rightarrow> None
         | Some t \<Rightarrow> Some (t @ [glPixelStorei_UNPACK_ROW_LENGTH 0]))"

definition update_textures ::
  "frame_env \<Rightarrow> vlc_chroma_description_t option \<Rightarrow> vout_display_sys_t \<Rightarrow> picture_t
     \<Rightarrow> (vlc_chroma_description_t option \<times> call list) option" where
  "update_textures env static_c vout pic =
     (if gl_has_unpack_row (sys_gl vout) then
        (case update_textures_simple vout pic of
           None \<Rightarrow> None
         | Some t \<Rightarrow> Some (static_c, t))
      else update_textures_complex env static_c vout pic)"

subsection \<open>Window events: \<^verbatim>\<open>x11_backend_handle_events\<close>\<close>

text \<open>
  The loop \<^verbatim>\<open>while (XPending(...))\<close> takes the queued events one by one. A
  \<^verbatim>\<open>ConfigureNotify\<close> stores the new size in \<^verbatim>\<open>x11->rect\<close> (an \<^verbatim>\<open>int\<close> converted to
  \<^verbatim>\<open>unsigned\<close>) and recomputes \<^verbatim>\<open>gl->viewport\<close>.
\<close>

fun x11_events_loop ::
  "XEvent list \<Rightarrow> vout_display_sys_t \<Rightarrow> (vout_display_sys_t \<times> call list) option" where
  "x11_events_loop [] sys = Some (sys, [])"
| "x11_events_loop (xev # q) sys =
     (case xev of
        ConfigureNotify cw ch \<Rightarrow>
          (let rect = (x11_rect (sys_x11 sys))\<lparr>r_width := word_of_int cw, r_height := word_of_int ch\<rparr>;
               sys = sys\<lparr>sys_x11 := (sys_x11 sys)\<lparr>x11_rect := rect\<rparr>\<rparr>
           in case compute_bounding_box (vd_cfg (sys_vd sys)) (x11_rect (sys_x11 sys))
                     (gl_viewport (sys_gl sys)) of
                None \<Rightarrow> None
              | Some vp \<Rightarrow>
                  (case x11_events_loop q (sys\<lparr>sys_gl := (sys_gl sys)\<lparr>gl_viewport := vp\<rparr>\<rparr>) of
                     None \<Rightarrow> None
                   | Some (sys', t) \<Rightarrow> Some (sys', XNextEvent # t)))
      | OtherEvent \<Rightarrow>
          (case x11_events_loop q sys of
             None \<Rightarrow> None
           | Some (sys', t) \<Rightarrow> Some (sys', XNextEvent # t)))"

definition x11_backend_handle_events ::
  "vout_display_sys_t \<Rightarrow> (vout_display_sys_t \<times> call list) option" where
  "x11_backend_handle_events sys =
     x11_events_loop (x11_pending (sys_x11 sys))
       (sys\<lparr>sys_x11 := (sys_x11 sys)\<lparr>x11_pending := []\<rparr>\<rparr>)"

subsection \<open>The two render passes and \<^verbatim>\<open>do_display\<close>\<close>

definition indices :: "nat list" where
  "indices = [0, 1, 2, 0, 2, 3]"

definition do_deinterlace_and_color_conversion ::
  "frame_env \<Rightarrow> vlc_chroma_description_t option \<Rightarrow> vout_display_sys_t \<Rightarrow> picture_t
     \<Rightarrow> (vlc_chroma_description_t option \<times> call list) option" where
  "do_deinterlace_and_color_conversion env static_c vout pic =
     (let vVertices = [- 1, - 1, 0, 1,
                       1, - 1, 1, 1,
                       1, 1, 1, 0,
                       - 1, 1, 0, 0];
          height = i_height (pic_format pic);
          width = i_width (pic_format pic);
          g = sys_gl vout;
          t1 = [glBindFramebuffer (gl_framebuffer g),
                glUseProgram (sh_program (gl_deint g)),
                glViewport 0 0 width height,
                glVertexAttribPointer (sh_position_loc (gl_deint g)) 2 16 vVertices,
                glVertexAttribPointer (sh_texcoord_loc (gl_deint g)) 2 16 (drop 2 vVertices),
                glEnableVertexAttribArray (sh_position_loc (gl_deint g)),
                glEnableVertexAttribArray (sh_texcoord_loc (gl_deint g))]
      in case update_textures env static_c vout pic of
           None \<Rightarrow> None
         | Some (c, t2) \<Rightarrow>
             (let line_height_loc =
                    env_glGetUniformLocation env (sh_program (gl_deint g)) ''line_height'';
                  t3 = [glGetUniformLocation (sh_program (gl_deint g)) ''line_height'',
                        glUniform1f line_height_loc
                          (float_of_double (ddiv (Finite 1) (double_of_unsigned height))),
                        glDrawElements 6 indices]
              in Some (c, t1 @ t2 @ t3)))"

definition do_scaling :: "vout_display_sys_t \<Rightarrow> picture_t \<Rightarrow> call list" where
  "do_scaling vout pic =
     (let vVertices = [- 1, - 1, 0, 0,
                       1, - 1, 1, 0,
                       1, 1, 1, 1,
                       - 1, 1, 0, 1];
          g = sys_gl vout
      in [glUseProgram (sh_program (gl_scale g)),
          glBindFramebuffer 0,
          glViewport (r_x (gl_viewport g)) (r_y (gl_viewport g))
            (r_width (gl_viewport g)) (r_height (gl_viewport g)),
          glClear,
          glVertexAttribPointer (sh_position_loc (gl_scale g)) 2 16 vVertices,
          glVertexAttribPointer (sh_texcoord_loc (gl_scale g)) 2 16 (drop 2 vVertices),
          glEnableVertexAttribArray (sh_position_loc (gl_scale g)),
          glEnableVertexAttribArray (sh_texcoord_loc (gl_scale g)),
          glActiveTexture 3,
          glBindTexture (tex_id (gl_rgb_tex g)),
          glUniform1i (tex_loc (gl_rgb_tex g)) 3,
          glDrawElements 6 indices])"

text \<open>
  \<^verbatim>\<open>do_display(vd, p, sp)\<close>. \<open>sp\<close> is \<open>None\<close> for a null subpicture. The model returns the
  static variable of \<^verbatim>\<open>update_textures_complex\<close>, the display's state and the calls made;
  \<open>None\<close> is undefined behaviour somewhere in the frame.
\<close>

type_synonym subpicture_t = nat

definition do_display ::
  "frame_env \<Rightarrow> vlc_chroma_description_t option \<Rightarrow> vout_display_sys_t \<Rightarrow> picture_t
     \<Rightarrow> subpicture_t option
     \<Rightarrow> (vlc_chroma_description_t option \<times> vout_display_sys_t \<times> call list) option" where
  "do_display env static_c sys pic sp =
     (if i_chroma (pic_format pic) \<noteq> VLC_CODEC_I420 \<or> i_planes pic \<noteq> 3 then
        Some (static_c, sys,
              [vlc_fourcc_GetDescription (i_chroma (pic_format pic)),
               fprintf_stderr ''ERR: unsupported picture format: %s''])
      else
        (case x11_backend_handle_events sys of
           None \<Rightarrow> None
         | Some (sys, t1) \<Rightarrow>
             (case do_deinterlace_and_color_conversion env static_c sys pic of
                None \<Rightarrow> None
              | Some (c, t2) \<Rightarrow>
                  Some (c, sys,
                        t1 @ t2 @ do_scaling sys pic
                        @ [eglSwapBuffers (egl_display (sys_egl sys)) (egl_surface (sys_egl sys))]
                        @ [picture_Release]
                        @ (case sp of None \<Rightarrow> [] | Some _ \<Rightarrow> [subpicture_Delete])))))"

subsection \<open>A mock of the GL's pixel transfer\<close>

text \<open>
  What the texture uploads of a trace leave in the GL, after OpenGL ES 2.0 section 3.6
  with \<^verbatim>\<open>GL_EXT_unpack_subimage\<close>: the rows of an image of width \<open>w\<close> are read from client
  memory \<open>k\<close> bytes apart, where \<open>k\<close> is the length of a row in bytes, \<open>n * l\<close>, rounded up
  to a multiple of \<^verbatim>\<open>GL_UNPACK_ALIGNMENT\<close>; \<open>l\<close> is \<^verbatim>\<open>GL_UNPACK_ROW_LENGTH\<close> if that is
  positive and \<open>w\<close> otherwise, \<open>n\<close> the number of bytes of a pixel. The source never sets
  the alignment, whose initial value is 4. A read outside the client memory handed over is
  undefined behaviour (\<open>None\<close>); a negative size or row length is a GL error and changes
  nothing.
\<close>

record gl_state =
  unpack_row_length :: int
  unpack_alignment :: int
  active_texture :: nat
  texture_binding_2d :: "nat \<Rightarrow> nat"
  texture_image :: "nat \<Rightarrow> 8 word list list option"

definition gl_initial :: gl_state where
  "gl_initial =
     \<lparr>unpack_row_length = 0, unpack_alignment = 4, active_texture = 0,
      texture_binding_2d = (\<lambda>_. 0), texture_image = (\<lambda>_. None)\<rparr>"

fun bytes_per_pixel :: "gl_format \<Rightarrow> nat" where
  "bytes_per_pixel GL_LUMINANCE = 1"
| "bytes_per_pixel GL_RGB = 3"

definition unpack_stride :: "gl_state \<Rightarrow> gl_format \<Rightarrow> nat \<Rightarrow> nat" where
  "unpack_stride st f wd =
     (let n = bytes_per_pixel f;
          l = (if 0 < unpack_row_length st then nat (unpack_row_length st) else wd);
          a = nat (unpack_alignment st)
      in a * ((n * l + a - 1) div a))"

definition unpack_row :: "8 word list \<Rightarrow> nat \<Rightarrow> nat \<Rightarrow> nat \<Rightarrow> 8 word list option" where
  "unpack_row data k len r =
     (if r * k + len \<le> length data then Some (take len (drop (r * k) data)) else None)"

definition unpack_rows ::
  "gl_state \<Rightarrow> gl_format \<Rightarrow> nat \<Rightarrow> nat \<Rightarrow> 8 word list \<Rightarrow> 8 word list list option" where
  "unpack_rows st f wd ht data =
     those (map (unpack_row data (unpack_stride st f wd) (bytes_per_pixel f * wd)) [0..<ht])"

fun gl_step :: "gl_state \<Rightarrow> call \<Rightarrow> gl_state option" where
  "gl_step st (glActiveTexture u) = Some (st\<lparr>active_texture := u\<rparr>)"
| "gl_step st (glBindTexture t) =
     Some (st\<lparr>texture_binding_2d := (texture_binding_2d st)(active_texture st := t)\<rparr>)"
| "gl_step st (glPixelStorei_UNPACK_ROW_LENGTH v) =
     Some (if v < 0 then st else st\<lparr>unpack_row_length := v\<rparr>)"
| "gl_step st (glTexImage2D ifmt wd ht f data) =
     (if wd < 0 \<or> ht < 0 then Some st
      else
        (case unpack_rows st f (nat wd) (nat ht) data of
           None \<Rightarrow> None
         | Some rows \<Rightarrow>
             Some (st\<lparr>texture_image :=
                        (texture_image st)(texture_binding_2d st (active_texture st) := Some rows)\<rparr>)))"
| "gl_step st _ = Some st"

fun gl_run :: "gl_state \<Rightarrow> call list \<Rightarrow> gl_state option" where
  "gl_run st [] = Some st"
| "gl_run st (c # cs) = (case gl_step st c of None \<Rightarrow> None | Some st' \<Rightarrow> gl_run st' cs)"

subsection \<open>The pixel-store state in the program\<close>

text \<open>
  The pixel-store state of the GL is what \<^verbatim>\<open>glPixelStorei\<close> sets: the row length and the
  alignment.
\<close>

definition pixel_store :: "gl_state \<Rightarrow> int \<times> int" where
  "pixel_store st = (unpack_row_length st, unpack_alignment st)"

fun is_pixel_store :: "call \<Rightarrow> bool" where
  "is_pixel_store (glPixelStorei_UNPACK_ROW_LENGTH v) = True"
| "is_pixel_store _ = False"

text \<open>
  The states in which the program can find the GL. \<^verbatim>\<open>egl_backend_create\<close> creates the
  context and makes it current: a new context is in the GL's initial state. From then on
  the source calls \<^verbatim>\<open>glPixelStorei\<close> at two places only, lines 738 and 744, both in
  \<^verbatim>\<open>update_textures_simple\<close>, which has no early return: a call of that function runs all
  its GL calls. Every other GL call of the program, before, between and after the
  uploads, is some call other than \<^verbatim>\<open>glPixelStorei\<close>.
\<close>

inductive program_gl_state :: "gl_state \<Rightarrow> bool" where
  context_created: "program_gl_state gl_initial"
| textures_updated:
    "program_gl_state st \<Longrightarrow> update_textures_simple vout pic = Some t \<Longrightarrow> gl_run st t = Some st'
       \<Longrightarrow> program_gl_state st'"
| other_call:
    "program_gl_state st \<Longrightarrow> \<not> is_pixel_store c \<Longrightarrow> gl_step st c = Some st'
       \<Longrightarrow> program_gl_state st'"

subsection \<open>What an upload shows\<close>

text \<open>
  The rows of \<open>line\<close> bytes that start every \<open>s\<close> bytes in a plane's memory, \<open>rows\<close> of
  them, and the visible region in the words of the specification: its rows start one byte
  pitch apart.
\<close>

definition strided_rows :: "8 word list \<Rightarrow> nat \<Rightarrow> nat \<Rightarrow> nat \<Rightarrow> 8 word list list" where
  "strided_rows px line s rows = map (\<lambda>r. take line (drop (r * s) px)) [0..<rows]"

definition visible_region :: "plane_t \<Rightarrow> nat \<Rightarrow> nat \<Rightarrow> 8 word list list" where
  "visible_region pl line rows = strided_rows (p_pixels pl) line (nat (i_pitch pl)) rows"

text \<open>The image the loop over the planes is to upload for plane \<open>i\<close>: \<^verbatim>\<open>rows\<close> rows of
  \<^verbatim>\<open>line\<close> bytes, one row every \<^verbatim>\<open>i_pitch / i_pixel_pitch\<close> bytes.\<close>

definition plane_image :: "vlc_chroma_description_t \<Rightarrow> video_format_t \<Rightarrow> plane_t \<Rightarrow> nat \<Rightarrow> 8 word list list" where
  "plane_image c f pl i =
     strided_rows (p_pixels pl) (unat (plane_line c f i)) (nat (plane_stride pl))
       (unat (plane_rows c f i))"

text \<open>The state of the mock GL after an image has gone to texture \<open>t\<close> through unit \<open>u\<close>.\<close>

definition uploaded :: "gl_state \<Rightarrow> nat \<Rightarrow> nat \<Rightarrow> 8 word list list \<Rightarrow> gl_state" where
  "uploaded st u t rs =
     st\<lparr>active_texture := u,
        texture_binding_2d := (texture_binding_2d st)(u := t),
        texture_image := (texture_image st)(t := Some rs)\<rparr>"

text \<open>
  When the two upload paths can be compared on plane \<open>i\<close>, with \<open>a\<close> the GL's unpack
  alignment: no division by zero; the row step is positive; the sizes the compacting path
  derives from the display's format fit a \<^verbatim>\<open>GLsizei\<close> and their product an \<^verbatim>\<open>unsigned\<close>;
  the plane's own visible size, which the direct path uploads, is that same size; row
  step and row length are multiples of the alignment; and the rows lie inside the plane.
\<close>

definition upload_precondition ::
  "int \<Rightarrow> vlc_chroma_description_t \<Rightarrow> video_format_t \<Rightarrow> plane_t \<Rightarrow> nat \<Rightarrow> bool" where
  "upload_precondition a c f pl i \<longleftrightarrow>
     rat_den (cp_h (c ! i)) \<noteq> 0 \<and> rat_den (cp_w (c ! i)) \<noteq> 0
     \<and> i_pixel_pitch pl \<noteq> 0
     \<and> 0 < plane_stride pl
     \<and> unat (plane_line c f i) < 2 ^ 31 \<and> unat (plane_rows c f i) < 2 ^ 31
     \<and> unat (plane_line c f i) * unat (plane_rows c f i) < 2 ^ 32
     \<and> i_visible_pitch pl = int (unat (plane_line c f i))
     \<and> i_visible_lines pl = int (unat (plane_rows c f i))
     \<and> a dvd plane_stride pl \<and> a dvd int (unat (plane_line c f i))
     \<and> (plane_rows c f i = 0
          \<or> (unat (plane_rows c f i) - 1) * nat (plane_stride pl) + unat (plane_line c f i)
              \<le> length (p_pixels pl))"

subsection \<open>What a frame's trace shows\<close>

text \<open>Draw calls, buffer swaps and diagnostics in a trace, and the test by which
  \<^verbatim>\<open>do_display\<close> rejects a picture.\<close>

fun is_draw_call :: "call \<Rightarrow> bool" where
  "is_draw_call (glDrawElements n ix) = True"
| "is_draw_call _ = False"

fun is_buffer_swap :: "call \<Rightarrow> bool" where
  "is_buffer_swap (eglSwapBuffers d s) = True"
| "is_buffer_swap _ = False"

fun is_diagnostic :: "call \<Rightarrow> bool" where
  "is_diagnostic (fprintf_stderr m) = True"
| "is_diagnostic _ = False"

definition rejected :: "picture_t \<Rightarrow> bool" where
  "rejected pic \<longleftrightarrow> i_chroma (pic_format pic) \<noteq> VLC_CODEC_I420 \<or> i_planes pic \<noteq> 3"

subsection \<open>The fragment shader \<^verbatim>\<open>fragment_deint\<close>\<close>

text \<open>The GLSL program that \<^verbatim>\<open>shader_load\<close> compiles for \<^verbatim>\<open>SHADER_TYPE_DEINT_LINEAR\<close>,
  statement by statement. A sampler is the function from a texture coordinate to the red
  component that \<^verbatim>\<open>texture2D\<close> returns for it; \<^verbatim>\<open>mix\<close> is the built-in linear blend
  \<open>x (1 - a) + y a\<close>. The arithmetic is that of the GLSL expressions read over the
  rationals: the precision of a \<^verbatim>\<open>mediump float\<close> is left to the implementation by the
  shading language and is not modelled. The result is \<^verbatim>\<open>gl_FragColor\<close>.\<close>

type_synonym sampler2D = "rat \<times> rat \<Rightarrow> rat"

definition mix :: "rat \<Rightarrow> rat \<Rightarrow> rat \<Rightarrow> rat" where
  "mix a b t = a * (1 - t) + b * t"

definition fragment_deint_main ::
  "sampler2D \<Rightarrow> sampler2D \<Rightarrow> sampler2D \<Rightarrow> rat \<Rightarrow> rat \<times> rat \<Rightarrow> rat \<times> rat \<times> rat \<times> rat" where
  "fragment_deint_main s_ytex s_utex s_vtex line_height vTexcoord =
     (let tmpcoord = (fst vTexcoord, snd vTexcoord + line_height);
          tmpcoord_2 = (fst vTexcoord, snd vTexcoord + line_height * 2.0);
          y1 = s_ytex vTexcoord;
          y2 = s_ytex tmpcoord;
          u1 = s_utex vTexcoord;
          u2 = s_utex tmpcoord_2;
          v1 = s_vtex vTexcoord;
          v2 = s_vtex tmpcoord_2;
          y = mix y1 y2 0.5;
          u = mix u1 u2 0.5;
          v = mix v1 v2 0.5;
          y = 1.1643 * (y - 0.0625);
          u = u - 0.5;
          v = v - 0.5;
          r = y + 1.5958 * v;
          g = y - 0.39173 * u - 0.81290 * v;
          b = y + 2.017 * u
      in (r, g, b, 1.0))"

subsection \<open>Example inputs\<close>

text \<open>The entry of I420 in the VLC core's table of chroma descriptions: a full-size luma
  plane and two chroma planes of half the width and half the height.\<close>

definition I420_description :: vlc_chroma_description_t where
  "I420_description =
     [\<lparr>cp_w = \<lparr>rat_num = 1, rat_den = 1\<rparr>, cp_h = \<lparr>rat_num = 1, rat_den = 1\<rparr>\<rparr>,
      \<lparr>cp_w = \<lparr>rat_num = 1, rat_den = 2\<rparr>, cp_h = \<lparr>rat_num = 1, rat_den = 2\<rparr>\<rparr>,
      \<lparr>cp_w = \<lparr>rat_num = 1, rat_den = 2\<rparr>, cp_h = \<lparr>rat_num = 1, rat_den = 2\<rparr>\<rparr>]"

definition example_env :: frame_env where
  "example_env =
     \<lparr>env_GetChromaDescription = (\<lambda>ch. if ch = VLC_CODEC_I420 then Some I420_description else None),
      env_glGetUniformLocation = (\<lambda>prog name. 7)\<rparr>"

definition example_format :: "32 word \<Rightarrow> 32 word \<Rightarrow> video_format_t" where
  "example_format wd ht =
     \<lparr>i_chroma = VLC_CODEC_I420, i_width = wd, i_height = ht,
      i_visible_width = wd, i_visible_height = ht\<rparr>"

definition example_sys :: "video_format_t \<Rightarrow> vout_display_sys_t" where
  "example_sys f =
     \<lparr>sys_vd = \<lparr>vd_cfg = \<lparr>display_width = 1920, display_height = 1080\<rparr>, vd_fmt = f\<rparr>,
      sys_x11 = \<lparr>x11_pending = [], x11_window = 1,
                 x11_rect = \<lparr>r_x = 0, r_y = 0, r_width = 800, r_height = 800\<rparr>,
                 x11_external = False\<rparr>,
      sys_egl = \<lparr>egl_display = 1, egl_surface = 2, egl_context = 3\<rparr>,
      sys_gl = \<lparr>gl_framebuffer = 1,
                gl_deint = \<lparr>sh_program = 1, sh_vertex = 2, sh_fragment = 3,
                            sh_position_loc = 0, sh_texcoord_loc = 1\<rparr>,
                gl_scale = \<lparr>sh_program = 4, sh_vertex = 5, sh_fragment = 6,
                            sh_position_loc = 0, sh_texcoord_loc = 1\<rparr>,
                gl_tex = [\<lparr>tex_id = 10, tex_loc = 0\<rparr>, \<lparr>tex_id = 11, tex_loc = 1\<rparr>,
                          \<lparr>tex_id = 12, tex_loc = 2\<rparr>],
                gl_rgb_tex = \<lparr>tex_id = 13, tex_loc = 0\<rparr>,
                gl_viewport = \<lparr>r_x = 0, r_y = 175, r_width = 800, r_height = 450\<rparr>,
                gl_has_unpack_row = True\<rparr>\<rparr>"

text \<open>An I420 picture of 8 by 2 pixels: a luma plane of pitch 12 and two chroma planes
  of 4 by 1 samples, pitch 8.\<close>

definition example_picture :: picture_t where
  "example_picture =
     \<lparr>pic_format = example_format 8 2,
      pic_p =
        [\<lparr>p_pixels = [1, 2, 3, 4, 5, 6, 7, 8, 0, 0, 0, 0,
                       9, 10, 11, 12, 13, 14, 15, 16, 0, 0, 0, 0],
          i_pitch = 12, i_pixel_pitch = 1, i_visible_lines = 2, i_visible_pitch = 8\<rparr>,
         \<lparr>p_pixels = [21, 22, 23, 24, 0, 0, 0, 0],
          i_pitch = 8, i_pixel_pitch = 1, i_visible_lines = 1, i_visible_pitch = 4\<rparr>,
         \<lparr>p_pixels = [31, 32, 33, 34, 0, 0, 0, 0],
          i_pitch = 8, i_pixel_pitch = 1, i_visible_lines = 1, i_visible_pitch = 4\<rparr>],
      i_planes = 3\<rparr>"

text \<open>A plane whose pixels are two bytes wide.\<close>

definition wide_pixel_picture :: picture_t where
  "wide_pixel_picture =
     \<lparr>pic_format = example_format 4 2,
      pic_p =
        [\<lparr>p_pixels = [0, 1, 2, 3, 4, 5, 6, 7, 8, 9, 10, 11, 12, 13, 14, 15],
          i_pitch = 8, i_pixel_pitch = 2, i_visible_lines = 2, i_visible_pitch = 8\<rparr>],
      i_planes = 1\<rparr>"

text \<open>A picture of three planes whose pixels are one, two and four bytes wide: the
  strides in pixels of its planes, all of pitch 8, are 8, 4 and 2.\<close>

definition mixed_pixel_picture :: picture_t where
  "mixed_pixel_picture =
     \<lparr>pic_format = example_format 4 2,
      pic_p =
        [\<lparr>p_pixels = [1, 2, 3, 4, 0, 0, 0, 0, 5, 6, 7, 8, 0, 0, 0, 0],
          i_pitch = 8, i_pixel_pitch = 1, i_visible_lines = 2, i_visible_pitch = 4\<rparr>,
         \<lparr>p_pixels = [21, 22, 23, 24, 0, 0, 0, 0],
          i_pitch = 8, i_pixel_pitch = 2, i_visible_lines = 1, i_visible_pitch = 4\<rparr>,
         \<lparr>p_pixels = [31, 32, 33, 34, 35, 36, 37, 38],
          i_pitch = 8, i_pixel_pitch = 4, i_visible_lines = 1, i_visible_pitch = 8\<rparr>],
      i_planes = 3\<rparr>"

text \<open>An I420 picture of 6 by 2 pixels: the rows of its planes, 6 and 3 bytes, are not
  multiples of the GL's initial unpack alignment.\<close>

definition odd_width_picture :: picture_t where
  "odd_width_picture =
     \<lparr>pic_format = example_format 6 2,
      pic_p =
        [\<lparr>p_pixels = [1, 2, 3, 4, 5, 6, 0, 0, 7, 8, 9, 10, 11, 12, 0, 0],
          i_pitch = 8, i_pixel_pitch = 1, i_visible_lines = 2, i_visible_pitch = 6\<rparr>,
         \<lparr>p_pixels = [21, 22, 23, 0],
          i_pitch = 4, i_pixel_pitch = 1, i_visible_lines = 1, i_visible_pitch = 3\<rparr>,
         \<lparr>p_pixels = [31, 32, 33, 0],
          i_pitch = 4, i_pixel_pitch = 1, i_visible_lines = 1, i_visible_pitch = 3\<rparr>],
      i_planes = 3\<rparr>"

text \<open>The picture of 8 by 2 pixels with a luma plane that shows only 4 bytes of each row,
  in a display whose format says 8.\<close>

definition cropped_picture :: picture_t where
  "cropped_picture =
     example_picture\<lparr>pic_p := (pic_p example_picture)
        [0 := (pic_p example_picture ! 0)\<lparr>i_visible_pitch := 4\<rparr>]\<rparr>"

section \<open>Properties\<close>

subsection \<open>The bounding box is a function of its inputs\<close>

text \<open>
  Claim C9. \<^verbatim>\<open>compute_bounding_box\<close> is a pure function of the source size and the
  destination rectangle: it reads nothing else, in particular not the previous contents of
  the output rectangle, the only other memory it is handed. Two calls with the same
  \<open>cfg\<close> and \<open>dst\<close> yield the same rectangle, whatever \<^verbatim>\<open>*res\<close> held before each call
  (for instance the result of the first call).
\<close>

theorem compute_bounding_box_pure:
  "compute_bounding_box cfg dst res = compute_bounding_box cfg dst res'"
  by (simp add: compute_bounding_box_def Let_def split: option.split)

subsection \<open>Teardown of the resource context\<close>

text \<open>
  Claim C8, as stated, at a context whose three members are all live: the source destroys
  the context before the surface, not the surface first.
\<close>

theorem egl_backend_destroy_order_counterexample:
  "filter is_egl_destroy
     (egl_backend_destroy (Some \<lparr>egl_display = 1, egl_surface = 2, egl_context = 3\<rparr>))
     = [eglDestroyContext 1 3, eglDestroySurface 1 2, eglTerminate 1]
   \<and> filter is_egl_destroy
     (egl_backend_destroy (Some \<lparr>egl_display = 1, egl_surface = 2, egl_context = 3\<rparr>))
     \<noteq> spec_teardown_order \<lparr>egl_display = 1, egl_surface = 2, egl_context = 3\<rparr>"
  by (simp add: egl_backend_destroy_def egl_destroy_context_def egl_destroy_surface_def
      egl_terminate_def spec_teardown_order_def)

text \<open>
  Claim C8, amended. Teardown destroys the context first, then the surface, then the
  display, in that order, each only if it is not null; so for every combination of null
  members, and for a null pointer, it completes and no call destroys a null object.
\<close>

theorem egl_backend_destroy_teardown:
  "filter is_egl_destroy (egl_backend_destroy (Some egl)) =
     (if egl_context egl \<noteq> 0 then [eglDestroyContext (egl_display egl) (egl_context egl)] else [])
     @ (if egl_surface egl \<noteq> 0 then [eglDestroySurface (egl_display egl) (egl_surface egl)] else [])
     @ (if egl_display egl \<noteq> 0 then [eglTerminate (egl_display egl)] else [])
   \<and> Some 0 \<notin> destroyed_handle ` set (egl_backend_destroy (Some egl))
   \<and> egl_backend_destroy None = []"
  by (auto simp: egl_backend_destroy_def egl_destroy_context_def egl_destroy_surface_def
      egl_terminate_def)

theorem egl_backend_destroy_teardown_witness:
  "filter is_egl_destroy
     (egl_backend_destroy (Some \<lparr>egl_display = 1, egl_surface = 0, egl_context = 3\<rparr>))
     = [eglDestroyContext 1 3, eglTerminate 1]
   \<and> Some 0 \<notin> destroyed_handle `
       set (egl_backend_destroy (Some \<lparr>egl_display = 1, egl_surface = 0, egl_context = 3\<rparr>))"
  using egl_backend_destroy_teardown [of "\<lparr>egl_display = 1, egl_surface = 0, egl_context = 3\<rparr>"]
  by simp

subsection \<open>Failure of shader program creation\<close>

lemma live_objects_append:
  "live_objects (tr @ tr') = foldl live_step (live_objects tr) tr'"
  by (simp add: live_objects_def)

text \<open>
  Claim C4 at a link failure. With a GL implementation in which everything succeeds but
  the link, \<^verbatim>\<open>shader_init\<close> deletes the program, goes on to use it, and returns \<open>0\<close>:
  success. The struct still holds the deleted program's name, and both shaders stay alive.
\<close>

theorem shader_init_link_failure:
  "shader_init link_failing_driver
     \<lparr>sh_program = 0, sh_vertex = 0, sh_fragment = 0, sh_position_loc = 0, sh_texcoord_loc = 0\<rparr>
     SHADER_TYPE_DEINT_LINEAR
   = (0,
      \<lparr>sh_program = 1, sh_vertex = 2, sh_fragment = 3, sh_position_loc = 0, sh_texcoord_loc = 1\<rparr>,
      [glCreateProgram 1,
       glCreateShader GL_VERTEX_SHADER 2, glShaderSource 2 vertex, glCompileShader 2,
       glGetShaderiv 2 GL_COMPILE_STATUS,
       glCreateShader GL_FRAGMENT_SHADER 3, glShaderSource 3 fragment_deint, glCompileShader 3,
       glGetShaderiv 3 GL_COMPILE_STATUS,
       glAttachShader 1 2, glGetError,
       glAttachShader 1 3, glGetError,
       glBindAttribLocation 1 0 ''vPosition'', glLinkProgram 1, glGetProgramiv 1 GL_LINK_STATUS,
       glGetProgramiv 1 GL_INFO_LOG_LENGTH, glDeleteProgram 1,
       glUseProgram 1,
       glGetAttribLocation 1 ''vPosition'', glGetAttribLocation 1 ''aTexcoord'', glClearColor])
   \<and> live_objects (snd (snd (shader_init link_failing_driver
     \<lparr>sh_program = 0, sh_vertex = 0, sh_fragment = 0, sh_position_loc = 0, sh_texcoord_loc = 0\<rparr>
     SHADER_TYPE_DEINT_LINEAR))) = ({2, 3}, {})"
  by (simp add: shader_init_def shader_load_def shader_load_source_def link_failing_driver_def
      live_objects_def insert_commute)

text \<open>
  The other half of the claim holds: a source that does not compile makes \<^verbatim>\<open>shader_init\<close>
  report failure, and no failure return leaves a GL object behind.
\<close>

lemma shader_init_compile_failure:
  assumes "drv_glCreateProgram drv \<noteq> 0"
    and "\<not> drv_compile_status drv vertex
         \<or> \<not> drv_compile_status drv
              (if type = SHADER_TYPE_DEINT_LINEAR then fragment_deint else fragment_copy)"
  shows "fst (shader_init drv shader type) = - 1"
  using assms
  by (auto simp: shader_init_def shader_load_def shader_load_source_def shader_init_failure_def
      shader_delete_def Let_def split: if_splits prod.splits)

lemma shader_init_failure_no_leak:
  assumes "fst (shader_init drv shader type) = - 1"
  shows "live_objects (snd (snd (shader_init drv shader type))) = ({}, {})"
  using assms
  by (auto simp: shader_init_def shader_load_def shader_load_source_def shader_init_failure_def
      shader_delete_def live_objects_def Let_def split: if_splits prod.splits)

subsection \<open>Auxiliary facts: iteration, the mock GL, the examples\<close>

lemma for_loop_those:
  "for_loop i n body = map_option concat (those (map body [i..<n]))"
proof (induction i n body rule: for_loop.induct)
  case (1 i n body)
  show ?case
  proof (cases "i < n")
    case True
    then have upt: "[i..<n] = i # [Suc i..<n]" by (simp add: upt_conv_Cons)
    show ?thesis
    proof (cases "body i")
      case None
      with True upt show ?thesis by (simp add: for_loop.simps [of i])
    next
      case (Some t)
      with True upt "1.IH" [OF True Some] show ?thesis
        by (simp add: for_loop.simps [of i] split: option.split)
    qed
  next
    case False
    then show ?thesis by (simp add: for_loop.simps [of i])
  qed
qed

lemma for_loop_3:
  "for_loop 0 3 body =
     (case body 0 of None \<Rightarrow> None
      | Some t0 \<Rightarrow> (case body 1 of None \<Rightarrow> None
         | Some t1 \<Rightarrow> (case body 2 of None \<Rightarrow> None
            | Some t2 \<Rightarrow> Some (t0 @ t1 @ t2))))"
proof -
  have "[0..<3::nat] = [0, 1, 2]" by code_simp
  then show ?thesis by (simp add: for_loop_those split: option.split)
qed

lemma unsigned_of_int_3: "unsigned_of_int 3 = 3"
  by (simp add: unsigned_of_int_def)

lemma gl_run_append:
  "gl_run st (a @ b) = (case gl_run st a of None \<Rightarrow> None | Some st' \<Rightarrow> gl_run st' b)"
  by (induction a arbitrary: st) (auto split: option.split)

lemma gl_step_alignment:
  "gl_step st c = Some st' \<Longrightarrow> unpack_alignment st' = unpack_alignment st"
  by (cases c) (auto split: if_splits option.splits)

lemma gl_run_alignment:
  "gl_run st cs = Some st' \<Longrightarrow> unpack_alignment st' = unpack_alignment st"
  by (induction cs arbitrary: st) (auto split: option.splits dest: gl_step_alignment)

lemma memcpy_src_length:
  "memcpy_src px off line = Some row \<Longrightarrow> length row = line"
  by (auto simp: memcpy_src_def split: if_splits)

lemma copy_rows_length:
  "copy_rows pl line n off = Some buf \<Longrightarrow> length buf = line * n"
  by (induction n arbitrary: off buf)
     (auto split: option.splits if_splits dest: memcpy_src_length)

lemma map_upt_Suc_shift:
  "map f [0..<Suc n] = f 0 # map (\<lambda>r. f (Suc r)) [0..<n]"
  by (simp add: upt_conv_Cons map_Suc_upt [symmetric] del: upt_Suc)

lemma copy_rows_rows:
  assumes pp: "i_pixel_pitch pl \<noteq> 0" and step: "0 \<le> plane_stride pl"
  shows "0 \<le> off \<Longrightarrow>
         n = 0 \<or> nat off + (n - 1) * nat (plane_stride pl) + line \<le> length (p_pixels pl) \<Longrightarrow>
         copy_rows pl line n off =
           Some (concat (map (\<lambda>r. take line (drop (nat off + r * nat (plane_stride pl)) (p_pixels pl)))
                   [0..<n]))"
proof (induction n arbitrary: off)
  case 0
  then show ?case by simp
next
  case (Suc n)
  let ?s = "plane_stride pl" and ?px = "p_pixels pl"
  from Suc.prems have here: "nat off + line \<le> length ?px" by simp
  have next_off: "nat (off + ?s) = nat off + nat ?s"
    using Suc.prems(1) step by (simp add: nat_add_distrib)
  have "n = 0 \<or> nat (off + ?s) + (n - 1) * nat ?s + line \<le> length ?px"
  proof (cases n)
    case 0
    then show ?thesis by simp
  next
    case (Suc m)
    with Suc.prems(2) next_off show ?thesis by (simp add: algebra_simps)
  qed
  moreover have "0 \<le> off + ?s" using Suc.prems(1) step by simp
  ultimately
  have rest: "copy_rows pl line n (off + ?s) =
           Some (concat (map (\<lambda>r. take line (drop (nat (off + ?s) + r * nat ?s) ?px)) [0..<n]))"
    by (rule Suc.IH [rotated])
  have shift: "nat (off + ?s) + r * nat ?s = nat off + Suc r * nat ?s" for r
    using next_off by simp
  show ?case
    unfolding map_upt_Suc_shift
    using here Suc.prems(1) rest pp
    by (simp add: memcpy_src_def shift del: upt_Suc)
qed

lemma copy_rows_Suc_numeral:
  "copy_rows pl line (numeral n) off =
     (case memcpy_src (p_pixels pl) off line of
        None \<Rightarrow> None
      | Some row \<Rightarrow>
          (if i_pixel_pitch pl = 0 then None
           else
             (case copy_rows pl line (pred_numeral n) (off + plane_stride pl) of
                None \<Rightarrow> None
              | Some rest \<Rightarrow> Some (row @ rest))))"
  by (simp add: numeral_eq_Suc)

lemma those_map_Some:
  "(\<And>v. v \<in> set xs \<Longrightarrow> f v = Some (g v)) \<Longrightarrow> those (map f xs) = Some (map g xs)"
  by (induction xs) auto

lemma round_up_dvd:
  fixes a l :: nat
  assumes "0 < a" and "a dvd l"
  shows "a * ((l + a - Suc 0) div a) = l"
proof -
  from assms(2) obtain m where l: "l = a * m" by (auto simp: dvd_def)
  have eq: "a * m + a - Suc 0 = (a - Suc 0) + m * a"
    using assms(1) by (simp add: algebra_simps)
  have "(a * m + a - Suc 0) div a = ((a - Suc 0) + m * a) div a"
    by (simp only: eq)
  also have "\<dots> = (a - Suc 0) div a + m"
    using assms(1) by (simp only: div_mult_self1 [OF less_imp_neq [THEN not_sym]])
  also have "\<dots> = m"
    using assms(1) by simp
  finally have "(a * m + a - Suc 0) div a = m" .
  then show ?thesis unfolding l by (simp only:)
qed

lemma take_drop_concat_block:
  assumes "\<And>v. v \<in> set rs \<Longrightarrow> length v = n" and "r < length rs"
  shows "take n (drop (r * n) (concat rs)) = rs ! r"
  using assms
proof (induction rs arbitrary: r)
  case Nil
  then show ?case by simp
next
  case (Cons a rs)
  have la: "length a = n" using Cons.prems(1) by simp
  show ?case
  proof (cases r)
    case 0
    with la show ?thesis by simp
  next
    case (Suc m)
    with Cons.prems have "m < length rs" by simp
    with Cons.IH [of m] Cons.prems(1)
    have "take n (drop (m * n) (concat rs)) = rs ! m" by simp
    with Suc la show ?thesis by simp
  qed
qed

lemma length_concat_block:
  "(\<And>v. v \<in> set rs \<Longrightarrow> length v = n) \<Longrightarrow> length (concat rs) = n * length rs"
  by (induction rs) auto

text \<open>The rows the GL reads from a plane, given a row length, and from a packed buffer.\<close>

lemma unpack_rows_strided:
  assumes rl: "unpack_row_length st = s" and s: "0 < s"
    and a: "0 < unpack_alignment st" and dvd: "unpack_alignment st dvd s"
    and bounds: "ht = 0 \<or> (ht - 1) * nat s + wd \<le> length data"
  shows "unpack_rows st GL_LUMINANCE wd ht data =
           Some (map (\<lambda>r. take wd (drop (r * nat s) data)) [0..<ht])"
proof -
  have "nat (unpack_alignment st) dvd nat s"
    using a s dvd by (simp add: nat_dvd_iff)
  then have k: "unpack_stride st GL_LUMINANCE wd = nat s"
    using rl s a by (simp add: unpack_stride_def Let_def round_up_dvd)
  have "unpack_row data (nat s) wd r = Some (take wd (drop (r * nat s) data))"
    if "r \<in> set [0..<ht]" for r
  proof -
    from that have "r < ht" by simp
    then have "r * nat s \<le> (ht - 1) * nat s" by (intro mult_right_mono) auto
    moreover from bounds \<open>r < ht\<close> have "(ht - 1) * nat s + wd \<le> length data" by auto
    ultimately have "r * nat s + wd \<le> length data" by linarith
    then show ?thesis by (simp add: unpack_row_def)
  qed
  then have "those (map (unpack_row data (nat s) wd) [0..<ht])
               = Some (map (\<lambda>r. take wd (drop (r * nat s) data)) [0..<ht])"
    by (rule those_map_Some)
  then show ?thesis
    unfolding unpack_rows_def k by simp
qed

lemma unpack_rows_packed:
  assumes rl: "unpack_row_length st = 0"
    and a: "0 < unpack_alignment st" and dvd: "unpack_alignment st dvd int wd"
    and rows: "\<And>v. v \<in> set rs \<Longrightarrow> length v = wd"
  shows "unpack_rows st GL_LUMINANCE wd (length rs) (concat rs) = Some rs"
proof -
  have "nat (unpack_alignment st) dvd wd"
    using a dvd by (metis nat_dvd_iff nat_int less_imp_le)
  then have k: "unpack_stride st GL_LUMINANCE wd = wd"
    using rl a by (simp add: unpack_stride_def Let_def round_up_dvd)
  have len: "length (concat rs) = wd * length rs"
    using rows by (rule length_concat_block)
  have "unpack_row (concat rs) wd wd r = Some (rs ! r)" if "r \<in> set [0..<length rs]" for r
  proof -
    from that have r: "r < length rs" by simp
    then have "Suc r \<le> length rs" by simp
    then have "Suc r * wd \<le> length rs * wd" by (rule mult_le_mono1)
    then have "r * wd + wd \<le> length (concat rs)" using len by (simp add: mult.commute)
    with take_drop_concat_block [OF rows r] show ?thesis
      by (simp add: unpack_row_def)
  qed
  then have "those (map (unpack_row (concat rs) wd wd) [0..<length rs])
               = Some (map (\<lambda>r. rs ! r) [0..<length rs])"
    by (rule those_map_Some)
  then have "unpack_rows st GL_LUMINANCE wd (length rs) (concat rs)
               = Some (map (\<lambda>r. rs ! r) [0..<length rs])"
    unfolding unpack_rows_def k by simp
  then show ?thesis by (simp add: map_nth)
qed

lemma length_strided_rows [simp]: "length (strided_rows px line s rows) = rows"
  by (simp add: strided_rows_def)

lemma strided_rows_row_length:
  assumes "rows = 0 \<or> (rows - 1) * s + line \<le> length px"
    and "v \<in> set (strided_rows px line s rows)"
  shows "length v = line"
proof -
  from assms(2) obtain r where r: "r < rows" and v: "v = take line (drop (r * s) px)"
    by (auto simp: strided_rows_def)
  from r have "r * s \<le> (rows - 1) * s" by (intro mult_right_mono) auto
  moreover from assms(1) r have "(rows - 1) * s + line \<le> length px" by auto
  ultimately have "r * s + line \<le> length px" by linarith
  with v show ?thesis by simp
qed

lemma c_div_1 [simp]: "c_div a 1 = a"
  by (simp add: c_div_def mult_sgn_abs)

lemma sint_small:
  fixes v :: "32 word"
  assumes "unat v < 2 ^ 31"
  shows "sint v = int (unat v)"
proof -
  from assms have "int (unat v) < 2 ^ 31"
    by (metis of_nat_less_iff of_nat_numeral of_nat_power)
  then have u: "0 \<le> uint v" "uint v < 2 ^ 31"
    by simp_all
  have "sint v = signed_take_bit 31 (uint v)"
    by (simp add: sint_uint)
  also have "\<dots> = take_bit 32 (uint v + 2 ^ 31) - 2 ^ 31"
    by (simp add: signed_take_bit_eq_take_bit_shift)
  also have "take_bit 32 (uint v + 2 ^ 31) = uint v + 2 ^ 31"
    using u by (simp add: take_bit_eq_mod)
  finally have "sint v = uint v" by simp
  then show ?thesis by simp
qed

lemma complex_plane_calls:
  assumes "i < length c" "i < length (pic_p pic)" "i < length (gl_tex g)"
    and "rat_den (cp_h (c ! i)) \<noteq> 0" "rat_den (cp_w (c ! i)) \<noteq> 0"
    and "i_pixel_pitch (pic_p pic ! i) \<noteq> 0"
    and "0 \<le> plane_stride (pic_p pic ! i)"
    and "unat (plane_line c f i) * unat (plane_rows c f i) < 2 ^ 32"
    and "plane_rows c f i = 0
         \<or> (unat (plane_rows c f i) - 1) * nat (plane_stride (pic_p pic ! i))
             + unat (plane_line c f i) \<le> length (p_pixels (pic_p pic ! i))"
  shows "update_textures_complex_plane c f g pic i =
           Some [glActiveTexture i,
                 glBindTexture (tex_id (gl_tex g ! i)),
                 glTexImage2D GL_LUMINANCE (sint (plane_line c f i)) (sint (plane_rows c f i))
                   GL_LUMINANCE
                   (concat (strided_rows (p_pixels (pic_p pic ! i)) (unat (plane_line c f i))
                      (nat (plane_stride (pic_p pic ! i))) (unat (plane_rows c f i)))),
                 glUniform1i (tex_loc (gl_tex g ! i)) (int i)]"
proof -
  have "unat (plane_rows c f i) = 0
         \<or> nat 0 + (unat (plane_rows c f i) - 1) * nat (plane_stride (pic_p pic ! i))
             + unat (plane_line c f i) \<le> length (p_pixels (pic_p pic ! i))"
    using assms(9) by (auto simp: unat_eq_0)
  from copy_rows_rows [OF assms(6) assms(7) order_refl this]
  have "copy_rows (pic_p pic ! i) (unat (plane_line c f i)) (unat (plane_rows c f i)) 0
        = Some (concat (strided_rows (p_pixels (pic_p pic ! i)) (unat (plane_line c f i))
                      (nat (plane_stride (pic_p pic ! i))) (unat (plane_rows c f i))))"
    by (simp add: strided_rows_def)
  with assms show ?thesis
    by (simp add: update_textures_complex_plane_def Let_def)
qed

lemma gl_run_complex_plane:
  assumes "unpack_row_length st = 0"
    and "0 < unpack_alignment st" and "unpack_alignment st dvd int wd"
    and "\<And>v. v \<in> set rs \<Longrightarrow> length v = wd"
  shows "gl_run st [glActiveTexture u, glBindTexture t,
                    glTexImage2D GL_LUMINANCE (int wd) (int (length rs)) GL_LUMINANCE (concat rs),
                    glUniform1i l v]
         = Some (uploaded st u t rs)"
proof -
  let ?st2 = "st\<lparr>active_texture := u, texture_binding_2d := (texture_binding_2d st)(u := t)\<rparr>"
  have "unpack_rows ?st2 GL_LUMINANCE wd (length rs) (concat rs) = Some rs"
    using assms by (intro unpack_rows_packed) simp_all
  then show ?thesis by (simp add: uploaded_def)
qed

lemma gl_run_simple_plane:
  assumes "0 < s"
    and "0 < unpack_alignment st" and "unpack_alignment st dvd s"
    and "ht = 0 \<or> (ht - 1) * nat s + wd \<le> length px"
  shows "gl_run st [glActiveTexture u, glBindTexture t,
                    glPixelStorei_UNPACK_ROW_LENGTH s,
                    glTexImage2D GL_LUMINANCE (int wd) (int ht) GL_LUMINANCE px,
                    glUniform1i l v]
         = Some ((uploaded st u t (strided_rows px wd (nat s) ht))\<lparr>unpack_row_length := s\<rparr>)"
proof -
  let ?st3 = "st\<lparr>active_texture := u, texture_binding_2d := (texture_binding_2d st)(u := t),
               unpack_row_length := s\<rparr>"
  have "unpack_rows ?st3 GL_LUMINANCE wd ht px = Some (strided_rows px wd (nat s) ht)"
    unfolding strided_rows_def
    using assms by (intro unpack_rows_strided) simp_all
  with assms(1) show ?thesis by (simp add: uploaded_def)
qed

lemma plane_stride_pixel_pitch_1: "i_pixel_pitch pl = 1 \<Longrightarrow> plane_stride pl = i_pitch pl"
  by (simp add: plane_stride_def)

lemma plane_image_rows:
  assumes "upload_precondition a c f pl i" and "v \<in> set (plane_image c f pl i)"
  shows "length v = unat (plane_line c f i)"
proof -
  from assms(1) have "unat (plane_rows c f i) = 0
          \<or> (unat (plane_rows c f i) - 1) * nat (plane_stride pl) + unat (plane_line c f i)
              \<le> length (p_pixels pl)"
    by (auto simp: upload_precondition_def)
  from strided_rows_row_length [OF this] assms(2) show ?thesis
    by (simp add: plane_image_def)
qed

lemma complex_plane_upload:
  assumes pre: "upload_precondition (unpack_alignment st) c f (pic_p pic ! i) i"
    and idx: "i < length c" "i < length (pic_p pic)" "i < length (gl_tex g)"
    and st: "unpack_row_length st = 0" "0 < unpack_alignment st"
  shows "\<exists>t. update_textures_complex_plane c f g pic i = Some t
     \<and> gl_run st t = Some (uploaded st i (tex_id (gl_tex g ! i)) (plane_image c f (pic_p pic ! i) i))"
proof -
  let ?pl = "pic_p pic ! i"
  let ?rs = "plane_image c f ?pl i"
  from pre have stride: "0 \<le> plane_stride ?pl" by (simp add: upload_precondition_def)
  have calls: "update_textures_complex_plane c f g pic i =
           Some [glActiveTexture i,
                 glBindTexture (tex_id (gl_tex g ! i)),
                 glTexImage2D GL_LUMINANCE (sint (plane_line c f i)) (sint (plane_rows c f i))
                   GL_LUMINANCE (concat ?rs),
                 glUniform1i (tex_loc (gl_tex g ! i)) (int i)]"
    unfolding plane_image_def
    using pre idx stride by (intro complex_plane_calls) (simp_all add: upload_precondition_def)
  have sl: "sint (plane_line c f i) = int (unat (plane_line c f i))"
    and sr: "sint (plane_rows c f i) = int (length ?rs)"
    using pre by (simp_all add: upload_precondition_def sint_small plane_image_def)
  have "gl_run st [glActiveTexture i, glBindTexture (tex_id (gl_tex g ! i)),
                   glTexImage2D GL_LUMINANCE (int (unat (plane_line c f i))) (int (length ?rs))
                     GL_LUMINANCE (concat ?rs),
                   glUniform1i (tex_loc (gl_tex g ! i)) (int i)]
        = Some (uploaded st i (tex_id (gl_tex g ! i)) ?rs)"
  proof (rule gl_run_complex_plane [OF st])
    show "unpack_alignment st dvd int (unat (plane_line c f i))"
      using pre by (simp add: upload_precondition_def)
    show "length v = unat (plane_line c f i)" if "v \<in> set ?rs" for v
      using pre that by (rule plane_image_rows)
  qed
  with calls sl sr show ?thesis by simp
qed

lemma simple_plane_upload:
  assumes pre: "upload_precondition (unpack_alignment st) c f (pic_p pic ! i) i"
    and idx: "i < length (pic_p pic)" "i < length (gl_tex g)"
    and st: "0 < unpack_alignment st"
  shows "\<exists>t. update_textures_simple_plane g pic i = Some t
     \<and> gl_run st t = Some ((uploaded st i (tex_id (gl_tex g ! i)) (plane_image c f (pic_p pic ! i) i))
                            \<lparr>unpack_row_length := plane_stride (pic_p pic ! i)\<rparr>)"
proof -
  let ?pl = "pic_p pic ! i"
  have calls: "update_textures_simple_plane g pic i =
     Some [glActiveTexture i,
           glBindTexture (tex_id (gl_tex g ! i)),
           glPixelStorei_UNPACK_ROW_LENGTH (plane_stride ?pl),
           glTexImage2D GL_LUMINANCE (int (unat (plane_line c f i))) (int (unat (plane_rows c f i)))
             GL_LUMINANCE (p_pixels ?pl),
           glUniform1i (tex_loc (gl_tex g ! i)) (int i)]"
    using pre idx by (simp add: update_textures_simple_plane_def upload_precondition_def)
  have "gl_run st [glActiveTexture i,
           glBindTexture (tex_id (gl_tex g ! i)),
           glPixelStorei_UNPACK_ROW_LENGTH (plane_stride ?pl),
           glTexImage2D GL_LUMINANCE (int (unat (plane_line c f i))) (int (unat (plane_rows c f i)))
             GL_LUMINANCE (p_pixels ?pl),
           glUniform1i (tex_loc (gl_tex g ! i)) (int i)]
        = Some ((uploaded st i (tex_id (gl_tex g ! i))
                  (strided_rows (p_pixels ?pl) (unat (plane_line c f i)) (nat (plane_stride ?pl))
                     (unat (plane_rows c f i))))
                \<lparr>unpack_row_length := plane_stride ?pl\<rparr>)"
    using pre st by (intro gl_run_simple_plane) (auto simp: upload_precondition_def unat_eq_0)
  with calls show ?thesis by (simp add: plane_image_def)
qed

lemma uploaded_fields [simp]:
  "unpack_row_length (uploaded st u t rs) = unpack_row_length st"
  "unpack_alignment (uploaded st u t rs) = unpack_alignment st"
  by (simp_all add: uploaded_def)

lemma uploaded_row_length:
  "uploaded (st\<lparr>unpack_row_length := v\<rparr>) u t rs = (uploaded st u t rs)\<lparr>unpack_row_length := v\<rparr>"
  by (simp add: uploaded_def)

text \<open>Both paths, run from the same GL state, end in the same GL state.\<close>

lemma upload_paths_agree_aux:
  assumes planes: "i_planes pic = 3"
    and tex: "length (gl_tex (sys_gl vout)) = 3"
    and arr: "3 \<le> length (pic_p pic)"
    and desc: "(case static_c of None \<Rightarrow> env_GetChromaDescription env (i_chroma (vd_fmt (sys_vd vout)))
                | Some d \<Rightarrow> Some d) = Some c"
    and lenc: "3 \<le> length c"
    and rl: "unpack_row_length st = 0" and al: "0 < unpack_alignment st"
    and pre: "\<And>i. i < 3 \<Longrightarrow>
                upload_precondition (unpack_alignment st) c (vd_fmt (sys_vd vout)) (pic_p pic ! i) i"
  defines "img \<equiv> \<lambda>i. plane_image c (vd_fmt (sys_vd vout)) (pic_p pic ! i) i"
    and "tid \<equiv> \<lambda>i. tex_id (gl_tex (sys_gl vout) ! i)"
  defines "final \<equiv> uploaded (uploaded (uploaded st 0 (tid 0) (img 0)) 1 (tid 1) (img 1)) 2 (tid 2) (img 2)"
  shows "\<exists>ts tc. update_textures_simple vout pic = Some ts
     \<and> update_textures_complex env static_c vout pic = Some (Some c, tc)
     \<and> gl_run st ts = Some final \<and> gl_run st tc = Some final"
proof -
  let ?f = "vd_fmt (sys_vd vout)"
  let ?g = "sys_gl vout"
  define s1 where "s1 = uploaded st 0 (tid 0) (img 0)"
  define s2 where "s2 = uploaded s1 1 (tid 1) (img 1)"
  have final: "final = uploaded s2 2 (tid 2) (img 2)"
    by (simp add: final_def s1_def s2_def)
  have st_s1: "unpack_row_length s1 = 0" "unpack_alignment s1 = unpack_alignment st"
    and st_s2: "unpack_row_length s2 = 0" "unpack_alignment s2 = unpack_alignment st"
    and st_final: "unpack_row_length final = 0"
    using rl by (simp_all add: s1_def s2_def final)
  have idx: "i < length c" "i < length (pic_p pic)" "i < length (gl_tex ?g)" if "i < 3" for i
    using that tex arr lenc by simp_all
  \<comment> \<open>the compacting path\<close>
  have cu: "\<exists>t. update_textures_complex_plane c ?f ?g pic i = Some t
              \<and> gl_run s t = Some (uploaded s i (tid i) (img i))"
    if "i < 3" "unpack_row_length s = 0" "unpack_alignment s = unpack_alignment st" for i s
    unfolding img_def tid_def
    using pre [OF that(1)] idx [OF that(1)] that(2,3) al
    by (intro complex_plane_upload) simp_all
  from cu [of 0 st] rl obtain c0
    where c0: "update_textures_complex_plane c ?f ?g pic 0 = Some c0"
      and r0: "gl_run st c0 = Some s1"
    by (auto simp: s1_def)
  from cu [of 1 s1] st_s1 obtain c1
    where c1: "update_textures_complex_plane c ?f ?g pic 1 = Some c1"
      and r1: "gl_run s1 c1 = Some s2"
    by (auto simp: s2_def)
  from cu [of 2 s2] st_s2 obtain c2
    where c2: "update_textures_complex_plane c ?f ?g pic 2 = Some c2"
      and r2: "gl_run s2 c2 = Some final"
    by (auto simp: final)
  let ?tc = "[fprintf_stderr ''> %s()''] @ (c0 @ c1 @ c2) @ [fprintf_stderr ''< %s()'']"
  have tc: "update_textures_complex env static_c vout pic = Some (Some c, ?tc)"
    unfolding update_textures_complex_def Let_def desc planes unsigned_of_int_3 for_loop_3
    by (simp add: c0 c1 c2 del: One_nat_def)
  have run_c: "gl_run st ?tc = Some final"
    by (simp add: gl_run_append r0 r1 r2 del: One_nat_def)
  \<comment> \<open>the direct path\<close>
  have su: "\<exists>t. update_textures_simple_plane ?g pic i = Some t
              \<and> gl_run (s\<lparr>unpack_row_length := v\<rparr>) t
                  = Some ((uploaded s i (tid i) (img i))
                           \<lparr>unpack_row_length := plane_stride (pic_p pic ! i)\<rparr>)"
    if "i < 3" "unpack_alignment s = unpack_alignment st" for i s v
  proof -
    have "upload_precondition (unpack_alignment (s\<lparr>unpack_row_length := v\<rparr>)) c ?f
            (pic_p pic ! i) i"
      using pre [OF that(1)] that(2) by simp
    from simple_plane_upload [OF this, of ?g] idx [OF that(1)] that(2) al
    show ?thesis by (simp add: img_def tid_def uploaded_row_length)
  qed
  from su [of 0 st 0] rl obtain d0
    where d0: "update_textures_simple_plane ?g pic 0 = Some d0"
      and q0: "gl_run st d0 = Some (s1\<lparr>unpack_row_length := plane_stride (pic_p pic ! 0)\<rparr>)"
  proof -
    have "st\<lparr>unpack_row_length := 0\<rparr> = st" using rl by simp
    with su [of 0 st 0] that show ?thesis by (auto simp: s1_def)
  qed
  from su [of 1 s1 "plane_stride (pic_p pic ! 0)"] st_s1 obtain d1
    where d1: "update_textures_simple_plane ?g pic 1 = Some d1"
      and q1: "gl_run (s1\<lparr>unpack_row_length := plane_stride (pic_p pic ! 0)\<rparr>) d1
               = Some (s2\<lparr>unpack_row_length := plane_stride (pic_p pic ! 1)\<rparr>)"
    by (auto simp: s2_def)
  from su [of 2 s2 "plane_stride (pic_p pic ! 1)"] st_s2 obtain d2
    where d2: "update_textures_simple_plane ?g pic 2 = Some d2"
      and q2: "gl_run (s2\<lparr>unpack_row_length := plane_stride (pic_p pic ! 1)\<rparr>) d2
               = Some (final\<lparr>unpack_row_length := plane_stride (pic_p pic ! 2)\<rparr>)"
    by (auto simp: final)
  let ?ts = "(d0 @ d1 @ d2) @ [glPixelStorei_UNPACK_ROW_LENGTH 0]"
  have ts: "update_textures_simple vout pic = Some ?ts"
    unfolding update_textures_simple_def Let_def planes unsigned_of_int_3 for_loop_3
    by (simp add: d0 d1 d2 del: One_nat_def)
  have "final\<lparr>unpack_row_length := 0\<rparr> = final"
    using st_final by simp
  then have run_s: "gl_run st ?ts = Some final"
    by (simp add: gl_run_append q0 q1 q2 del: One_nat_def)
  from ts tc run_s run_c show ?thesis by blast
qed

lemmas example_defs = example_picture_def example_sys_def example_format_def example_env_def
  I420_description_def VLC_CODEC_I420_def

lemmas upload_eval = update_textures_simple_def update_textures_complex_def
  update_textures_simple_plane_def update_textures_complex_plane_def unsigned_of_int_def
  for_loop_3 plane_line_def plane_rows_def plane_stride_def c_div_def memcpy_src_def
  copy_rows_Suc_numeral

lemmas gl_eval = gl_initial_def unpack_rows_def unpack_row_def unpack_stride_def upt_conv_Cons

lemma example_chroma:
  "(case None of
      None \<Rightarrow> env_GetChromaDescription example_env
                (i_chroma (vd_fmt (sys_vd (example_sys (example_format wd ht)))))
    | Some d \<Rightarrow> Some d) = Some I420_description"
  by (simp add: example_env_def example_sys_def example_format_def)

subsection \<open>The direct-stride upload path\<close>

lemma update_textures_simple_resets:
  assumes "update_textures_simple vout pic = Some t" and "gl_run st t = Some st'"
  shows "unpack_row_length st' = 0" and "unpack_alignment st' = unpack_alignment st"
proof -
  from assms(1) obtain t0 where t: "t = t0 @ [glPixelStorei_UNPACK_ROW_LENGTH 0]"
    by (auto simp: update_textures_simple_def Let_def split: option.splits)
  with assms(2) obtain st1 where "gl_run st1 [glPixelStorei_UNPACK_ROW_LENGTH 0] = Some st'"
    by (auto simp only: gl_run_append split: option.splits)
  then have "st' = st1\<lparr>unpack_row_length := 0\<rparr>" by simp
  then show "unpack_row_length st' = 0" by simp
  from assms(2) show "unpack_alignment st' = unpack_alignment st" by (rule gl_run_alignment)
qed

lemma gl_step_other_call:
  "\<not> is_pixel_store c \<Longrightarrow> gl_step st c = Some st' \<Longrightarrow> unpack_row_length st' = unpack_row_length st"
  by (cases c) (auto split: if_splits option.splits)

lemma program_gl_state_pixel_store:
  "program_gl_state st \<Longrightarrow> pixel_store st = pixel_store gl_initial"
proof (induction rule: program_gl_state.induct)
  case context_created
  show ?case by (rule refl)
next
  case (textures_updated st vout pic t st')
  from update_textures_simple_resets [OF textures_updated(2,3)] textures_updated(4)
  show ?case by (simp add: pixel_store_def gl_initial_def)
next
  case (other_call st c st')
  from gl_step_other_call [OF other_call(2,3)] gl_step_alignment [OF other_call(3)] other_call(4)
  show ?case by (simp add: pixel_store_def)
qed

text \<open>
  Claim C7. For a picture of 3 planes, \<^verbatim>\<open>update_textures_simple\<close> makes, for each plane
  \<open>i = 0, 1, 2\<close> in turn, exactly these calls: it selects texture unit \<open>i\<close> and binds the
  plane's texture, sets \<^verbatim>\<open>GL_UNPACK_ROW_LENGTH\<close> to the plane's stride in pixels, which is
  the quotient of its byte pitch by its pixel pitch (the quotient of C, truncated towards
  zero), uploads \<^verbatim>\<open>i_visible_pitch\<close> by \<^verbatim>\<open>i_visible_lines\<close> of single-channel 8-bit data
  from the plane's pixels, and sets the plane's sampler uniform to \<open>i\<close>; its last call sets
  \<^verbatim>\<open>GL_UNPACK_ROW_LENGTH\<close> back to \<open>0\<close>. So in the GL the row length is \<open>0\<close> on return,
  whatever it was on entry, and the alignment is untouched; and since the row length is
  \<open>0\<close> in every state in which the program can find the GL, the call leaves the
  pixel-store state as it found it.
\<close>

theorem update_textures_simple_effect:
  assumes planes: "i_planes pic = 3"
    and tex: "length (gl_tex (sys_gl vout)) = 3"
    and arr: "3 \<le> length (pic_p pic)"
    and pp: "\<forall>i\<in>{0, 1, 2}. i_pixel_pitch (pic_p pic ! i) \<noteq> 0"
  shows "\<exists>t. update_textures_simple vout pic = Some t
    \<and> t = concat (map (\<lambda>i.
          [glActiveTexture i,
           glBindTexture (tex_id (gl_tex (sys_gl vout) ! i)),
           glPixelStorei_UNPACK_ROW_LENGTH
             (sgn (i_pitch (pic_p pic ! i)) * sgn (i_pixel_pitch (pic_p pic ! i))
                * (\<bar>i_pitch (pic_p pic ! i)\<bar> div \<bar>i_pixel_pitch (pic_p pic ! i)\<bar>)),
           glTexImage2D GL_LUMINANCE (i_visible_pitch (pic_p pic ! i))
             (i_visible_lines (pic_p pic ! i)) GL_LUMINANCE (p_pixels (pic_p pic ! i)),
           glUniform1i (tex_loc (gl_tex (sys_gl vout) ! i)) (int i)]) [0, 1, 2])
        @ [glPixelStorei_UNPACK_ROW_LENGTH 0]
    \<and> (\<forall>st st'. gl_run st t = Some st' \<longrightarrow>
          unpack_row_length st' = 0 \<and> unpack_alignment st' = unpack_alignment st)
    \<and> (\<forall>st st'. program_gl_state st \<longrightarrow> gl_run st t = Some st' \<longrightarrow>
          pixel_store st' = pixel_store st)"
proof -
  let ?calls = "\<lambda>i.
          [glActiveTexture i,
           glBindTexture (tex_id (gl_tex (sys_gl vout) ! i)),
           glPixelStorei_UNPACK_ROW_LENGTH
             (sgn (i_pitch (pic_p pic ! i)) * sgn (i_pixel_pitch (pic_p pic ! i))
                * (\<bar>i_pitch (pic_p pic ! i)\<bar> div \<bar>i_pixel_pitch (pic_p pic ! i)\<bar>)),
           glTexImage2D GL_LUMINANCE (i_visible_pitch (pic_p pic ! i))
             (i_visible_lines (pic_p pic ! i)) GL_LUMINANCE (p_pixels (pic_p pic ! i)),
           glUniform1i (tex_loc (gl_tex (sys_gl vout) ! i)) (int i)]"
  let ?t = "concat (map ?calls [0, 1, 2]) @ [glPixelStorei_UNPACK_ROW_LENGTH 0]"
  have body: "update_textures_simple_plane (sys_gl vout) pic i = Some (?calls i)"
    if "i < 3" for i
  proof -
    from that have "i \<in> {0, 1, 2}" by auto
    with pp have "i_pixel_pitch (pic_p pic ! i) \<noteq> 0" by blast
    with that tex arr show ?thesis
      by (simp add: update_textures_simple_plane_def plane_stride_def c_div_def)
  qed
  have t: "update_textures_simple vout pic = Some ?t"
    unfolding update_textures_simple_def Let_def planes unsigned_of_int_3 for_loop_3
    by (simp add: body)
  show ?thesis
  proof (intro exI conjI allI impI)
    show "update_textures_simple vout pic = Some ?t" by (rule t)
    show "?t = ?t" by (rule refl)
  next
    fix st st' assume "gl_run st ?t = Some st'"
    with t show "unpack_row_length st' = 0" by (rule update_textures_simple_resets(1))
  next
    fix st st' assume "gl_run st ?t = Some st'"
    with t show "unpack_alignment st' = unpack_alignment st"
      by (rule update_textures_simple_resets(2))
  next
    fix st st' assume p: "program_gl_state st" and r: "gl_run st ?t = Some st'"
    from p t r have "program_gl_state st'" by (rule textures_updated)
    then have "pixel_store st' = pixel_store gl_initial" by (rule program_gl_state_pixel_store)
    also from p have "\<dots> = pixel_store st" by (rule program_gl_state_pixel_store [symmetric])
    finally show "pixel_store st' = pixel_store st" .
  qed
qed

theorem update_textures_simple_effect_witness:
  "\<exists>t st'. update_textures_simple (example_sys (example_format 4 2)) mixed_pixel_picture = Some t
     \<and> t = [glActiveTexture 0, glBindTexture 10, glPixelStorei_UNPACK_ROW_LENGTH 8,
            glTexImage2D GL_LUMINANCE 4 2 GL_LUMINANCE
              [1, 2, 3, 4, 0, 0, 0, 0, 5, 6, 7, 8, 0, 0, 0, 0],
            glUniform1i 0 0,
            glActiveTexture 1, glBindTexture 11, glPixelStorei_UNPACK_ROW_LENGTH 4,
            glTexImage2D GL_LUMINANCE 4 1 GL_LUMINANCE [21, 22, 23, 24, 0, 0, 0, 0],
            glUniform1i 1 1,
            glActiveTexture 2, glBindTexture 12, glPixelStorei_UNPACK_ROW_LENGTH 2,
            glTexImage2D GL_LUMINANCE 8 1 GL_LUMINANCE [31, 32, 33, 34, 35, 36, 37, 38],
            glUniform1i 2 2,
            glPixelStorei_UNPACK_ROW_LENGTH 0]
     \<and> program_gl_state gl_initial
     \<and> gl_run gl_initial t = Some st'
     \<and> unpack_row_length st' = 0
     \<and> pixel_store st' = pixel_store gl_initial"
proof -
  have side: "i_planes mixed_pixel_picture = 3"
    "length (gl_tex (sys_gl (example_sys (example_format 4 2)))) = 3"
    "3 \<le> length (pic_p mixed_pixel_picture)"
    "\<forall>i\<in>{0, 1, 2}. i_pixel_pitch (pic_p mixed_pixel_picture ! i) \<noteq> 0"
    by (simp_all add: mixed_pixel_picture_def example_sys_def)
  from update_textures_simple_effect [OF side]
  obtain t where t: "update_textures_simple (example_sys (example_format 4 2)) mixed_pixel_picture = Some t"
    and shape: "t = concat (map (\<lambda>i.
          [glActiveTexture i,
           glBindTexture (tex_id (gl_tex (sys_gl (example_sys (example_format 4 2))) ! i)),
           glPixelStorei_UNPACK_ROW_LENGTH
             (sgn (i_pitch (pic_p mixed_pixel_picture ! i))
                * sgn (i_pixel_pitch (pic_p mixed_pixel_picture ! i))
                * (\<bar>i_pitch (pic_p mixed_pixel_picture ! i)\<bar>
                     div \<bar>i_pixel_pitch (pic_p mixed_pixel_picture ! i)\<bar>)),
           glTexImage2D GL_LUMINANCE (i_visible_pitch (pic_p mixed_pixel_picture ! i))
             (i_visible_lines (pic_p mixed_pixel_picture ! i)) GL_LUMINANCE
             (p_pixels (pic_p mixed_pixel_picture ! i)),
           glUniform1i (tex_loc (gl_tex (sys_gl (example_sys (example_format 4 2))) ! i)) (int i)])
          [0, 1, 2])
        @ [glPixelStorei_UNPACK_ROW_LENGTH 0]"
    and reset: "\<forall>st st'. gl_run st t = Some st' \<longrightarrow>
          unpack_row_length st' = 0 \<and> unpack_alignment st' = unpack_alignment st"
    and kept: "\<forall>st st'. program_gl_state st \<longrightarrow> gl_run st t = Some st' \<longrightarrow>
          pixel_store st' = pixel_store st"
    by blast
  from shape have calls: "t =
           [glActiveTexture 0, glBindTexture 10, glPixelStorei_UNPACK_ROW_LENGTH 8,
            glTexImage2D GL_LUMINANCE 4 2 GL_LUMINANCE
              [1, 2, 3, 4, 0, 0, 0, 0, 5, 6, 7, 8, 0, 0, 0, 0],
            glUniform1i 0 0,
            glActiveTexture 1, glBindTexture 11, glPixelStorei_UNPACK_ROW_LENGTH 4,
            glTexImage2D GL_LUMINANCE 4 1 GL_LUMINANCE [21, 22, 23, 24, 0, 0, 0, 0],
            glUniform1i 1 1,
            glActiveTexture 2, glBindTexture 12, glPixelStorei_UNPACK_ROW_LENGTH 2,
            glTexImage2D GL_LUMINANCE 8 1 GL_LUMINANCE [31, 32, 33, 34, 35, 36, 37, 38],
            glUniform1i 2 2,
            glPixelStorei_UNPACK_ROW_LENGTH 0]"
    by (simp add: mixed_pixel_picture_def example_sys_def)
  have start: "program_gl_state gl_initial" by (rule context_created)
  have "\<exists>st'. gl_run gl_initial t = Some st'"
    unfolding calls by (simp add: gl_eval)
  then obtain st' where st': "gl_run gl_initial t = Some st'" ..
  from reset st' have "unpack_row_length st' = 0" by blast
  moreover from kept start st' have "pixel_store st' = pixel_store gl_initial" by blast
  ultimately show ?thesis using t calls start st' by blast
qed

subsection \<open>The compacting upload path\<close>

lemma unat_scaled:
  fixes v n d :: "32 word"
  assumes "unat v * unat n < 2 ^ 32"
  shows "unat (v * n div d) = unat v * unat n div unat d"
proof -
  from assms have "unat (v * n) = unat v * unat n"
    by (simp add: unat_mult_lem [symmetric])
  then show ?thesis by (simp add: unat_div)
qed

lemma word_of_unat_int:
  fixes w :: "32 word"
  assumes "v = int (unat w)"
  shows "word_of_int v = w" and "nat v = unat w"
  using assms by simp_all

text \<open>
  Claim C6, as stated, at two planes. The first has pixels 2 bytes wide (pitch 8, pixel
  pitch 2, visible pitch 8, 2 visible lines, in a format of 4 by 2): the source pointer
  advances by \<^verbatim>\<open>i_pitch / i_pixel_pitch\<close> = 4 bytes, not by the byte pitch 8, and the buffer
  has 8 bytes, the bytes 0 to 7 of the plane, where the visible region has 16; nor are
  they the first 4 bytes of each of the two rows. The second has pixels 1 byte wide and
  shows 4 bytes of each of its 2 rows, in a display whose format says 8 by 2: the buffer
  has 16 bytes, 8 of each row, where the visible region has 8.
\<close>

theorem update_textures_complex_pixel_size_counterexample:
  "update_textures_complex_plane I420_description (example_format 4 2)
     (sys_gl (example_sys (example_format 4 2))) wide_pixel_picture 0 =
     Some [glActiveTexture 0, glBindTexture 10,
           glTexImage2D GL_LUMINANCE 4 2 GL_LUMINANCE [0, 1, 2, 3, 4, 5, 6, 7],
           glUniform1i 0 0]
   \<and> i_visible_pitch (pic_p wide_pixel_picture ! 0) = 8
   \<and> i_visible_lines (pic_p wide_pixel_picture ! 0) = 2
   \<and> concat (visible_region (pic_p wide_pixel_picture ! 0) 8 2)
       = [0, 1, 2, 3, 4, 5, 6, 7, 8, 9, 10, 11, 12, 13, 14, 15]
   \<and> concat (visible_region (pic_p wide_pixel_picture ! 0) 4 2) = [0, 1, 2, 3, 8, 9, 10, 11]
   \<and> update_textures_complex_plane I420_description (example_format 8 2)
     (sys_gl (example_sys (example_format 8 2))) cropped_picture 0 =
     Some [glActiveTexture 0, glBindTexture 10,
           glTexImage2D GL_LUMINANCE 8 2 GL_LUMINANCE
             [1, 2, 3, 4, 5, 6, 7, 8, 9, 10, 11, 12, 13, 14, 15, 16],
           glUniform1i 0 0]
   \<and> i_pixel_pitch (pic_p cropped_picture ! 0) = 1
   \<and> i_visible_pitch (pic_p cropped_picture ! 0) = 4
   \<and> i_visible_lines (pic_p cropped_picture ! 0) = 2
   \<and> concat (visible_region (pic_p cropped_picture ! 0) 4 2) = [1, 2, 3, 4, 9, 10, 11, 12]"
  by (simp add: example_defs wide_pixel_picture_def cropped_picture_def upload_eval
      visible_region_def strided_rows_def upt_conv_Cons)

text \<open>
  Claim C6, amended. In the compacting upload path, for each plane whose pixels are one
  byte wide and whose visible size is the one that the display's format and the chroma
  description give it (the format's visible width and visible height, each times the
  plane's fraction, with a non-zero denominator and a product that fits 32 bits), whose
  pitch is not negative, whose visible rows lie inside the plane's memory and whose
  visible width times visible rows is below \<open>2\<^sup>3\<^sup>2\<close>, the temporary buffer has exactly
  visible width times visible rows bytes and is filled row by row with the source pointer
  advancing by the plane's byte pitch after each row, so that the packed buffer, which is
  what goes to the GL, holds exactly the bytes of the visible region.
\<close>

theorem update_textures_complex_packs:
  assumes "i < length c" and "i < length (pic_p pic)" and "i < length (gl_tex g)"
    and "rat_den (cp_h (c ! i)) \<noteq> 0" and "rat_den (cp_w (c ! i)) \<noteq> 0"
    and "i_pixel_pitch (pic_p pic ! i) = 1"
    and "0 \<le> i_pitch (pic_p pic ! i)"
    and "unat (i_visible_width f) * unat (rat_num (cp_w (c ! i))) < 2 ^ 32"
    and "unat (i_visible_height f) * unat (rat_num (cp_h (c ! i))) < 2 ^ 32"
    and "i_visible_pitch (pic_p pic ! i)
           = int (unat (i_visible_width f) * unat (rat_num (cp_w (c ! i)))
                   div unat (rat_den (cp_w (c ! i))))"
    and "i_visible_lines (pic_p pic ! i)
           = int (unat (i_visible_height f) * unat (rat_num (cp_h (c ! i)))
                   div unat (rat_den (cp_h (c ! i))))"
    and "nat (i_visible_pitch (pic_p pic ! i)) * nat (i_visible_lines (pic_p pic ! i)) < 2 ^ 32"
    and "i_visible_lines (pic_p pic ! i) = 0
         \<or> (nat (i_visible_lines (pic_p pic ! i)) - 1) * nat (i_pitch (pic_p pic ! i))
             + nat (i_visible_pitch (pic_p pic ! i)) \<le> length (p_pixels (pic_p pic ! i))"
  shows "\<exists>buf. update_textures_complex_plane c f g pic i =
           Some [glActiveTexture i,
                 glBindTexture (tex_id (gl_tex g ! i)),
                 glTexImage2D GL_LUMINANCE
                   (sint (word_of_int (i_visible_pitch (pic_p pic ! i)) :: 32 word))
                   (sint (word_of_int (i_visible_lines (pic_p pic ! i)) :: 32 word))
                   GL_LUMINANCE buf,
                 glUniform1i (tex_loc (gl_tex g ! i)) (int i)]
         \<and> length buf
             = nat (i_visible_pitch (pic_p pic ! i)) * nat (i_visible_lines (pic_p pic ! i))
         \<and> buf = concat (visible_region (pic_p pic ! i) (nat (i_visible_pitch (pic_p pic ! i)))
                    (nat (i_visible_lines (pic_p pic ! i))))"
proof -
  let ?pl = "pic_p pic ! i"
  have line: "i_visible_pitch ?pl = int (unat (plane_line c f i))"
    using assms(10) unat_scaled [OF assms(8)] by (simp add: plane_line_def)
  have rows: "i_visible_lines ?pl = int (unat (plane_rows c f i))"
    using assms(11) unat_scaled [OF assms(9)] by (simp add: plane_rows_def)
  note l = word_of_unat_int [OF line] and r = word_of_unat_int [OF rows]
  let ?buf = "concat (visible_region ?pl (unat (plane_line c f i)) (unat (plane_rows c f i)))"
  have stride: "plane_stride ?pl = i_pitch ?pl"
    using assms(6) by (rule plane_stride_pixel_pitch_1)
  have pp: "i_pixel_pitch ?pl \<noteq> 0" using assms(6) by simp
  have prod: "unat (plane_line c f i) * unat (plane_rows c f i) < 2 ^ 32"
    using assms(12) by (simp only: l(2) r(2))
  have inside: "plane_rows c f i = 0
         \<or> (unat (plane_rows c f i) - 1) * nat (plane_stride ?pl)
             + unat (plane_line c f i) \<le> length (p_pixels ?pl)"
  proof (cases "plane_rows c f i = 0")
    case True
    then show ?thesis by simp
  next
    case False
    then have "unat (plane_rows c f i) \<noteq> 0" by (simp add: unat_eq_0)
    then have "i_visible_lines ?pl \<noteq> 0" unfolding rows by (simp only: of_nat_eq_0_iff) simp
    with assms(13) show ?thesis by (simp only: l(2) r(2) stride) simp
  qed
  have calls: "update_textures_complex_plane c f g pic i =
           Some [glActiveTexture i,
                 glBindTexture (tex_id (gl_tex g ! i)),
                 glTexImage2D GL_LUMINANCE (sint (plane_line c f i)) (sint (plane_rows c f i))
                   GL_LUMINANCE ?buf,
                 glUniform1i (tex_loc (gl_tex g ! i)) (int i)]"
    unfolding visible_region_def stride [symmetric]
    using assms(1-5) pp _ prod inside
    by (rule complex_plane_calls) (simp add: stride assms(7))
  have rows_len: "length v = unat (plane_line c f i)"
    if "v \<in> set (visible_region ?pl (unat (plane_line c f i)) (unat (plane_rows c f i)))" for v
  proof -
    from inside have "unat (plane_rows c f i) = 0
         \<or> (unat (plane_rows c f i) - 1) * nat (i_pitch ?pl)
             + unat (plane_line c f i) \<le> length (p_pixels ?pl)"
      by (auto simp: stride unat_eq_0)
    from strided_rows_row_length [OF this] that show ?thesis
      by (simp add: visible_region_def)
  qed
  have len: "length ?buf = unat (plane_line c f i) * unat (plane_rows c f i)"
    using length_concat_block [of "visible_region ?pl (unat (plane_line c f i))
        (unat (plane_rows c f i))" "unat (plane_line c f i)"] rows_len
    by (simp add: visible_region_def)
  from calls len show ?thesis
    by (simp only: l r) blast
qed

theorem update_textures_complex_packs_witness:
  "update_textures_complex_plane I420_description (example_format 8 2)
     (sys_gl (example_sys (example_format 8 2))) example_picture 0 =
     Some [glActiveTexture 0, glBindTexture 10,
           glTexImage2D GL_LUMINANCE 8 2 GL_LUMINANCE
             [1, 2, 3, 4, 5, 6, 7, 8, 9, 10, 11, 12, 13, 14, 15, 16],
           glUniform1i 0 0]
   \<and> update_textures_complex_plane I420_description (example_format 8 2)
     (sys_gl (example_sys (example_format 8 2))) example_picture 1 =
     Some [glActiveTexture 1, glBindTexture 11,
           glTexImage2D GL_LUMINANCE 4 1 GL_LUMINANCE [21, 22, 23, 24],
           glUniform1i 1 1]"
  using update_textures_complex_packs [of 0 I420_description example_picture
      "sys_gl (example_sys (example_format 8 2))" "example_format 8 2"]
    update_textures_complex_packs [of 1 I420_description example_picture
      "sys_gl (example_sys (example_format 8 2))" "example_format 8 2"]
  by (simp add: example_defs visible_region_def strided_rows_def upt_conv_Cons)

subsection \<open>The two upload paths compared\<close>

text \<open>
  Claim C2 at an I420 picture of 6 by 2 pixels whose luma plane has pitch 8, from the GL's
  initial state. The direct-stride path uploads the visible rows of the three planes. The
  compacting path packs the luma plane into 12 bytes, two rows of 6, and hands them to
  \<^verbatim>\<open>glTexImage2D\<close> without having set \<^verbatim>\<open>GL_UNPACK_ALIGNMENT\<close>: the GL, whose alignment is 4
  from the start, takes the rows to lie 8 bytes apart and reads the second row past the
  end of the buffer. A packed buffer wants an alignment of 1: with it, the compacting
  path leaves the GL in the state in which the direct-stride path leaves it.
\<close>

theorem update_textures_complex_alignment:
  "\<exists>ts tc.
     update_textures_simple (example_sys (example_format 6 2)) odd_width_picture = Some ts
   \<and> ts = [glActiveTexture 0, glBindTexture 10, glPixelStorei_UNPACK_ROW_LENGTH 8,
           glTexImage2D GL_LUMINANCE 6 2 GL_LUMINANCE
             [1, 2, 3, 4, 5, 6, 0, 0, 7, 8, 9, 10, 11, 12, 0, 0],
           glUniform1i 0 0,
           glActiveTexture 1, glBindTexture 11, glPixelStorei_UNPACK_ROW_LENGTH 4,
           glTexImage2D GL_LUMINANCE 3 1 GL_LUMINANCE [21, 22, 23, 0],
           glUniform1i 1 1,
           glActiveTexture 2, glBindTexture 12, glPixelStorei_UNPACK_ROW_LENGTH 4,
           glTexImage2D GL_LUMINANCE 3 1 GL_LUMINANCE [31, 32, 33, 0],
           glUniform1i 2 2,
           glPixelStorei_UNPACK_ROW_LENGTH 0]
   \<and> update_textures_complex example_env None (example_sys (example_format 6 2)) odd_width_picture
       = Some (Some I420_description, tc)
   \<and> tc = [fprintf_stderr ''> %s()'',
           glActiveTexture 0, glBindTexture 10,
           glTexImage2D GL_LUMINANCE 6 2 GL_LUMINANCE [1, 2, 3, 4, 5, 6, 7, 8, 9, 10, 11, 12],
           glUniform1i 0 0,
           glActiveTexture 1, glBindTexture 11,
           glTexImage2D GL_LUMINANCE 3 1 GL_LUMINANCE [21, 22, 23],
           glUniform1i 1 1,
           glActiveTexture 2, glBindTexture 12,
           glTexImage2D GL_LUMINANCE 3 1 GL_LUMINANCE [31, 32, 33],
           glUniform1i 2 2,
           fprintf_stderr ''< %s()'']
   \<and> update_textures example_env None
         ((example_sys (example_format 6 2))
            \<lparr>sys_gl := (sys_gl (example_sys (example_format 6 2)))\<lparr>gl_has_unpack_row := False\<rparr>\<rparr>)
         odd_width_picture
       = Some (Some I420_description, tc)
   \<and> (\<exists>st'. gl_run gl_initial ts = Some st'
          \<and> texture_image st' 10 = Some [[1, 2, 3, 4, 5, 6], [7, 8, 9, 10, 11, 12]]
          \<and> texture_image st' 11 = Some [[21, 22, 23]]
          \<and> texture_image st' 12 = Some [[31, 32, 33]])
   \<and> unpack_stride gl_initial GL_LUMINANCE 6 = 8
   \<and> unpack_row [1, 2, 3, 4, 5, 6, 7, 8, 9, 10, 11, 12] 8 6 1 = None
   \<and> gl_run gl_initial tc = None
   \<and> (\<exists>st'. gl_run (gl_initial\<lparr>unpack_alignment := 1\<rparr>) ts = Some st'
          \<and> gl_run (gl_initial\<lparr>unpack_alignment := 1\<rparr>) tc = Some st'
          \<and> texture_image st' 10 = Some [[1, 2, 3, 4, 5, 6], [7, 8, 9, 10, 11, 12]]
          \<and> texture_image st' 11 = Some [[21, 22, 23]]
          \<and> texture_image st' 12 = Some [[31, 32, 33]])"
proof -
  have ts: "update_textures_simple (example_sys (example_format 6 2)) odd_width_picture
     = Some [glActiveTexture 0, glBindTexture 10, glPixelStorei_UNPACK_ROW_LENGTH 8,
             glTexImage2D GL_LUMINANCE 6 2 GL_LUMINANCE
               [1, 2, 3, 4, 5, 6, 0, 0, 7, 8, 9, 10, 11, 12, 0, 0],
             glUniform1i 0 0,
             glActiveTexture 1, glBindTexture 11, glPixelStorei_UNPACK_ROW_LENGTH 4,
             glTexImage2D GL_LUMINANCE 3 1 GL_LUMINANCE [21, 22, 23, 0],
             glUniform1i 1 1,
             glActiveTexture 2, glBindTexture 12, glPixelStorei_UNPACK_ROW_LENGTH 4,
             glTexImage2D GL_LUMINANCE 3 1 GL_LUMINANCE [31, 32, 33, 0],
             glUniform1i 2 2,
             glPixelStorei_UNPACK_ROW_LENGTH 0]"
    by (simp add: example_defs odd_width_picture_def upload_eval)
  have tc: "update_textures_complex example_env None (example_sys (example_format 6 2))
       odd_width_picture
     = Some (Some I420_description,
            [fprintf_stderr ''> %s()'',
             glActiveTexture 0, glBindTexture 10,
             glTexImage2D GL_LUMINANCE 6 2 GL_LUMINANCE [1, 2, 3, 4, 5, 6, 7, 8, 9, 10, 11, 12],
             glUniform1i 0 0,
             glActiveTexture 1, glBindTexture 11,
             glTexImage2D GL_LUMINANCE 3 1 GL_LUMINANCE [21, 22, 23],
             glUniform1i 1 1,
             glActiveTexture 2, glBindTexture 12,
             glTexImage2D GL_LUMINANCE 3 1 GL_LUMINANCE [31, 32, 33],
             glUniform1i 2 2,
             fprintf_stderr ''< %s()''])"
    by (simp add: example_defs odd_width_picture_def upload_eval)
  have tu: "update_textures example_env None
         ((example_sys (example_format 6 2))
            \<lparr>sys_gl := (sys_gl (example_sys (example_format 6 2)))\<lparr>gl_has_unpack_row := False\<rparr>\<rparr>)
         odd_width_picture
       = update_textures_complex example_env None (example_sys (example_format 6 2))
           odd_width_picture"
    by (simp add: update_textures_def example_defs odd_width_picture_def upload_eval)
  show ?thesis
    unfolding tu ts tc by (simp add: gl_eval)
qed

text \<open>
  The defect is the alignment alone. Where the row step and the length of the visible
  rows are multiples of the alignment, where the planes have the visible size that the
  display's format and the chroma description give them and the visible rows lie inside
  the planes, the two paths, run from the same GL state with the default row length, both
  succeed and leave the GL in the same state: each plane's texture holds the rows of the
  visible region, bit for bit, whichever path \<^verbatim>\<open>update_textures\<close> takes.
\<close>

lemma upload_paths_agree_aligned:
  assumes "i_planes pic = 3" and "length (gl_tex (sys_gl vout)) = 3" and "3 \<le> length (pic_p pic)"
    and "(case static_c of
            None \<Rightarrow> env_GetChromaDescription env (i_chroma (vd_fmt (sys_vd vout)))
          | Some d \<Rightarrow> Some d) = Some c"
    and "3 \<le> length c"
    and "unpack_row_length st = 0" and "0 < unpack_alignment st"
    and "\<forall>i\<in>{0, 1, 2}. upload_precondition (unpack_alignment st) c (vd_fmt (sys_vd vout))
                          (pic_p pic ! i) i"
  shows "\<exists>ts tc st'.
           update_textures env static_c (vout\<lparr>sys_gl := (sys_gl vout)\<lparr>gl_has_unpack_row := True\<rparr>\<rparr>) pic
             = Some (static_c, ts)
         \<and> update_textures_simple vout pic = Some ts
         \<and> update_textures env static_c (vout\<lparr>sys_gl := (sys_gl vout)\<lparr>gl_has_unpack_row := False\<rparr>\<rparr>) pic
             = Some (Some c, tc)
         \<and> update_textures_complex env static_c vout pic = Some (Some c, tc)
         \<and> gl_run st ts = Some st' \<and> gl_run st tc = Some st'
         \<and> st' = uploaded (uploaded (uploaded st
                  0 (tex_id (gl_tex (sys_gl vout) ! 0))
                    (plane_image c (vd_fmt (sys_vd vout)) (pic_p pic ! 0) 0))
                  1 (tex_id (gl_tex (sys_gl vout) ! 1))
                    (plane_image c (vd_fmt (sys_vd vout)) (pic_p pic ! 1) 1))
                  2 (tex_id (gl_tex (sys_gl vout) ! 2))
                    (plane_image c (vd_fmt (sys_vd vout)) (pic_p pic ! 2) 2)"
proof -
  have pre: "upload_precondition (unpack_alignment st) c (vd_fmt (sys_vd vout)) (pic_p pic ! i) i"
    if "i < 3" for i
  proof -
    from that have "i \<in> {0, 1, 2}" by auto
    with assms(8) show ?thesis by blast
  qed
  from upload_paths_agree_aux [OF assms(1-7) pre]
  obtain ts tc where ts: "update_textures_simple vout pic = Some ts"
    and tc: "update_textures_complex env static_c vout pic = Some (Some c, tc)"
    and rs: "gl_run st ts = Some (uploaded (uploaded (uploaded st
                  0 (tex_id (gl_tex (sys_gl vout) ! 0))
                    (plane_image c (vd_fmt (sys_vd vout)) (pic_p pic ! 0) 0))
                  1 (tex_id (gl_tex (sys_gl vout) ! 1))
                    (plane_image c (vd_fmt (sys_vd vout)) (pic_p pic ! 1) 1))
                  2 (tex_id (gl_tex (sys_gl vout) ! 2))
                    (plane_image c (vd_fmt (sys_vd vout)) (pic_p pic ! 2) 2))"
    and rc: "gl_run st tc = Some (uploaded (uploaded (uploaded st
                  0 (tex_id (gl_tex (sys_gl vout) ! 0))
                    (plane_image c (vd_fmt (sys_vd vout)) (pic_p pic ! 0) 0))
                  1 (tex_id (gl_tex (sys_gl vout) ! 1))
                    (plane_image c (vd_fmt (sys_vd vout)) (pic_p pic ! 1) 1))
                  2 (tex_id (gl_tex (sys_gl vout) ! 2))
                    (plane_image c (vd_fmt (sys_vd vout)) (pic_p pic ! 2) 2))"
    by blast
  have simple_flag: "update_textures_simple (vout\<lparr>sys_gl := (sys_gl vout)\<lparr>gl_has_unpack_row := b\<rparr>\<rparr>) pic
      = update_textures_simple vout pic" for b
  proof -
    have "update_textures_simple_plane ((sys_gl vout)\<lparr>gl_has_unpack_row := b\<rparr>) pic
            = update_textures_simple_plane (sys_gl vout) pic"
      by (rule ext) (simp add: update_textures_simple_plane_def)
    then show ?thesis by (simp add: update_textures_simple_def)
  qed
  have complex_flag: "update_textures_complex env static_c
        (vout\<lparr>sys_gl := (sys_gl vout)\<lparr>gl_has_unpack_row := b\<rparr>\<rparr>) pic
      = update_textures_complex env static_c vout pic" for b
  proof -
    have "update_textures_complex_plane d f ((sys_gl vout)\<lparr>gl_has_unpack_row := b\<rparr>) pic
            = update_textures_complex_plane d f (sys_gl vout) pic" for d f
      by (rule ext) (auto simp: update_textures_complex_plane_def Let_def split: option.splits)
    then show ?thesis by (simp add: update_textures_complex_def Let_def cong: option.case_cong)
  qed
  from ts tc rs rc show ?thesis
    by (simp add: update_textures_def simple_flag complex_flag)
qed

subsection \<open>Rejected frames\<close>

lemma do_display_rejected:
  assumes "rejected pic"
  shows "do_display env static_c sys pic sp =
           Some (static_c, sys,
                 [vlc_fourcc_GetDescription (i_chroma (pic_format pic)),
                  fprintf_stderr ''ERR: unsupported picture format: %s''])"
  using assms by (auto simp: do_display_def rejected_def)

lemma x11_events_loop_pending:
  "x11_events_loop q sys = Some (sys', t) \<Longrightarrow>
     x11_pending (sys_x11 sys') = x11_pending (sys_x11 sys)"
proof (induction q arbitrary: sys sys' t)
  case Nil
  then show ?case by simp
next
  case (Cons xev q)
  show ?case
  proof (cases xev)
    case (ConfigureNotify cw ch)
    with Cons.prems show ?thesis
      by (auto simp: Let_def split: option.splits dest!: Cons.IH)
  next
    case OtherEvent
    with Cons.prems show ?thesis
      by (auto split: option.splits dest!: Cons.IH)
  qed
qed

lemma x11_backend_handle_events_drains:
  "x11_backend_handle_events sys = Some (sys', t) \<Longrightarrow> x11_pending (sys_x11 sys') = []"
  by (auto simp: x11_backend_handle_events_def dest!: x11_events_loop_pending)

lemma do_display_accepted:
  assumes "\<not> rejected pic"
    and "do_display env static_c sys pic sp = Some (c', sys', tr)"
  shows "\<exists>t1 t2. x11_backend_handle_events sys = Some (sys', t1)
           \<and> do_deinterlace_and_color_conversion env static_c sys' pic = Some (c', t2)
           \<and> tr = t1 @ t2 @ do_scaling sys' pic
                  @ [eglSwapBuffers (egl_display (sys_egl sys')) (egl_surface (sys_egl sys'))]
                  @ [picture_Release]
                  @ (case sp of None \<Rightarrow> [] | Some _ \<Rightarrow> [subpicture_Delete])"
  using assms by (auto simp: do_display_def rejected_def split: option.splits)

text \<open>
  Claim C3. For every picture whose chroma is not I420 or whose plane count is not 3,
  \<^verbatim>\<open>do_display\<close> returns after emitting one diagnostic: its trace holds no draw call and
  no buffer swap (it holds no GL call at all: the GL's state is unchanged), and the
  display's state, with the static variable of the upload path, is returned unchanged, so
  that later frames find the pipeline as if the rejected frame had never arrived.
\<close>

theorem do_display_rejects_format:
  assumes "i_chroma (pic_format pic) \<noteq> VLC_CODEC_I420 \<or> i_planes pic \<noteq> 3"
  shows "\<exists>tr. do_display env static_c sys pic sp = Some (static_c, sys, tr)
           \<and> filter is_draw_call tr = []
           \<and> filter is_buffer_swap tr = []
           \<and> filter is_diagnostic tr = [fprintf_stderr ''ERR: unsupported picture format: %s'']
           \<and> gl_run st tr = Some st"
  using do_display_rejected [of pic env static_c sys sp] assms
  by (simp add: rejected_def)

theorem do_display_rejects_format_witness:
  "\<exists>tr. do_display example_env None (example_sys (example_format 8 2))
           (example_picture\<lparr>i_planes := 2\<rparr>) (Some 1)
         = Some (None, example_sys (example_format 8 2), tr)
       \<and> filter is_draw_call tr = []
       \<and> filter is_buffer_swap tr = []
       \<and> filter is_diagnostic tr = [fprintf_stderr ''ERR: unsupported picture format: %s'']"
  using do_display_rejects_format [of "example_picture\<lparr>i_planes := 2\<rparr>" example_env None
      "example_sys (example_format 8 2)" "Some 1" gl_initial]
  by auto

text \<open>
  Claim C10. For every rejected frame \<^verbatim>\<open>do_display\<close> returns without releasing the
  picture, without deleting the subpicture and without taking an event from the window's
  queue; for every accepted frame that it completes, the picture is released, the
  subpicture, if there is one, is deleted, and the queue of window events has been
  drained. Release and event draining happen on the accepted path only.
\<close>

theorem do_display_release_only_when_accepted:
  "((i_chroma (pic_format pic) \<noteq> VLC_CODEC_I420 \<or> i_planes pic \<noteq> 3) \<longrightarrow>
      (\<exists>tr. do_display env static_c sys pic sp = Some (static_c, sys, tr)
         \<and> picture_Release \<notin> set tr \<and> subpicture_Delete \<notin> set tr \<and> XNextEvent \<notin> set tr))
   \<and> (\<not> (i_chroma (pic_format pic) \<noteq> VLC_CODEC_I420 \<or> i_planes pic \<noteq> 3) \<longrightarrow>
      (\<forall>c' sys' tr. do_display env static_c sys pic sp = Some (c', sys', tr) \<longrightarrow>
         picture_Release \<in> set tr
         \<and> (sp \<noteq> None \<longrightarrow> subpicture_Delete \<in> set tr)
         \<and> x11_pending (sys_x11 sys') = []))"
proof (intro conjI impI allI)
  assume "i_chroma (pic_format pic) \<noteq> VLC_CODEC_I420 \<or> i_planes pic \<noteq> 3"
  then have "rejected pic" by (simp add: rejected_def)
  from do_display_rejected [OF this]
  show "\<exists>tr. do_display env static_c sys pic sp = Some (static_c, sys, tr)
         \<and> picture_Release \<notin> set tr \<and> subpicture_Delete \<notin> set tr \<and> XNextEvent \<notin> set tr"
    by simp
next
  fix c' sys' tr
  assume "\<not> (i_chroma (pic_format pic) \<noteq> VLC_CODEC_I420 \<or> i_planes pic \<noteq> 3)"
    and d: "do_display env static_c sys pic sp = Some (c', sys', tr)"
  then have "\<not> rejected pic" by (simp add: rejected_def)
  from do_display_accepted [OF this d] obtain t1 t2
    where h: "x11_backend_handle_events sys = Some (sys', t1)"
      and tr: "tr = t1 @ t2 @ do_scaling sys' pic
                  @ [eglSwapBuffers (egl_display (sys_egl sys')) (egl_surface (sys_egl sys'))]
                  @ [picture_Release]
                  @ (case sp of None \<Rightarrow> [] | Some _ \<Rightarrow> [subpicture_Delete])"
    by blast
  from tr show "picture_Release \<in> set tr" by simp
  from h show "x11_pending (sys_x11 sys') = []" by (rule x11_backend_handle_events_drains)
  assume "sp \<noteq> None"
  with tr show "subpicture_Delete \<in> set tr" by auto
qed

theorem do_display_release_only_when_accepted_witness:
  "(\<exists>tr. do_display example_env None (example_sys (example_format 8 2))
            (example_picture\<lparr>i_planes := 2\<rparr>) (Some 1)
          = Some (None, example_sys (example_format 8 2), tr)
        \<and> picture_Release \<notin> set tr \<and> subpicture_Delete \<notin> set tr \<and> XNextEvent \<notin> set tr)
   \<and> (\<exists>c' sys' tr. do_display example_env None (example_sys (example_format 8 2))
            example_picture (Some 1) = Some (c', sys', tr)
        \<and> picture_Release \<in> set tr \<and> subpicture_Delete \<in> set tr
        \<and> x11_pending (sys_x11 sys') = [])"
proof (rule conjI)
  from do_display_release_only_when_accepted [of "example_picture\<lparr>i_planes := 2\<rparr>" example_env
      None "example_sys (example_format 8 2)" "Some 1"]
  show "\<exists>tr. do_display example_env None (example_sys (example_format 8 2))
            (example_picture\<lparr>i_planes := 2\<rparr>) (Some 1)
          = Some (None, example_sys (example_format 8 2), tr)
        \<and> picture_Release \<notin> set tr \<and> subpicture_Delete \<notin> set tr \<and> XNextEvent \<notin> set tr"
    by simp
next
  have acc: "\<not> (i_chroma (pic_format example_picture) \<noteq> VLC_CODEC_I420
                 \<or> i_planes example_picture \<noteq> 3)"
    by (simp add: example_picture_def example_format_def)
  have "\<exists>r. do_display example_env None (example_sys (example_format 8 2))
            example_picture (Some 1) = Some r"
    by (simp add: do_display_def x11_backend_handle_events_def
        do_deinterlace_and_color_conversion_def update_textures_def Let_def
        example_defs upload_eval)
  then obtain c' sys' tr
    where d: "do_display example_env None (example_sys (example_format 8 2))
            example_picture (Some 1) = Some (c', sys', tr)"
    by (metis prod_cases3)
  with do_display_release_only_when_accepted [of example_picture example_env
      None "example_sys (example_format 8 2)" "Some 1"] acc
  have "picture_Release \<in> set tr \<and> subpicture_Delete \<in> set tr
        \<and> x11_pending (sys_x11 sys') = []"
    by blast
  with d show "\<exists>c' sys' tr. do_display example_env None (example_sys (example_format 8 2))
            example_picture (Some 1) = Some (c', sys', tr)
        \<and> picture_Release \<in> set tr \<and> subpicture_Delete \<in> set tr
        \<and> x11_pending (sys_x11 sys') = []"
    by blast
qed

subsection \<open>Rounding to \<open>p\<close> significant bits\<close>

lemma bitlen_pos_bounds:
  fixes a :: int
  assumes "0 < a"
  shows "(2::rat) powi (bitlen a - 1) \<le> of_int a" and "of_int a < (2::rat) powi (bitlen a)"
proof -
  from bitlen_bounds [OF assms]
  have lo: "2 ^ nat (bitlen a - 1) \<le> a" and hi: "a < 2 ^ nat (bitlen a)" by simp_all
  have b1: "1 \<le> bitlen a" using assms by (simp add: bitlen_alt_def)
  have "(2::rat) powi (bitlen a - 1) = 2 ^ nat (bitlen a - 1)"
    using b1 by (simp add: power_int_def)
  also have "\<dots> = of_int (2 ^ nat (bitlen a - 1))" by simp
  also have "\<dots> \<le> of_int a" using lo by (simp only: of_int_le_iff)
  finally show "(2::rat) powi (bitlen a - 1) \<le> of_int a" .
  have "(of_int a :: rat) < of_int (2 ^ nat (bitlen a))" using hi by (simp only: of_int_less_iff)
  also have "\<dots> = 2 powi (bitlen a)" using b1 by (simp add: power_int_def)
  finally show "of_int a < (2::rat) powi (bitlen a)" .
qed

lemma expo_bounds:
  assumes "0 < q"
  shows "2 powi (expo q) \<le> q" and "q < 2 powi (expo q + 1)"
proof -
  obtain a b where ab: "quotient_of q = (a, b)" by (cases "quotient_of q")
  then have b: "0 < b" and q: "q = of_int a / of_int b"
    by (rule quotient_of_denom_pos, rule quotient_of_div)
  from assms q b have a: "0 < a" by (simp add: zero_less_divide_iff)
  let ?e0 = "bitlen a - bitlen b"
  note A = bitlen_pos_bounds [OF a] and B = bitlen_pos_bounds [OF b]
  have bpos: "(0::rat) < of_int b" using b by simp
  have hi: "q < 2 powi (?e0 + 1)"
  proof -
    have "q < 2 powi (bitlen a) / of_int b"
      unfolding q using A(2) bpos by (simp add: divide_strict_right_mono)
    also have "\<dots> \<le> 2 powi (bitlen a) / 2 powi (bitlen b - 1)"
      using B(1) bpos
      by (intro divide_left_mono) (auto simp: zero_less_power_int intro!: mult_pos_pos less_imp_le)
    also have "\<dots> = 2 powi (bitlen a - (bitlen b - 1))"
      by (simp add: power_int_diff)
    finally show ?thesis by (simp add: algebra_simps)
  qed
  have lo: "2 powi (?e0 - 1) \<le> q"
  proof -
    have "(2::rat) powi (?e0 - 1) = 2 powi (bitlen a - 1) / 2 powi (bitlen b)"
      by (simp add: power_int_diff [symmetric] algebra_simps)
    also have "\<dots> \<le> of_int a / 2 powi (bitlen b)"
      using A(1) by (intro divide_right_mono) (simp_all add: zero_less_power_int less_imp_le)
    also have "\<dots> \<le> of_int a / of_int b"
      using B(2) a bpos
      by (intro divide_left_mono) (auto simp: zero_less_power_int intro!: mult_pos_pos less_imp_le)
    finally show ?thesis by (simp add: q)
  qed
  show "2 powi (expo q) \<le> q"
    using lo by (simp add: expo_def ab Let_def)
  show "q < 2 powi (expo q + 1)"
    using hi by (auto simp: expo_def ab Let_def not_le)
qed

lemma expo_unique:
  assumes "0 < q" and "2 powi e \<le> q" and "q < 2 powi (e + 1)"
  shows "expo q = e"
proof (rule antisym)
  show "expo q \<le> e"
  proof (rule ccontr)
    assume "\<not> expo q \<le> e"
    then have "e + 1 \<le> expo q" by simp
    then have "(2::rat) powi (e + 1) \<le> 2 powi (expo q)"
      by (intro power_int_increasing) simp_all
    with expo_bounds(1) [OF assms(1)] assms(3) show False by simp
  qed
  show "e \<le> expo q"
  proof (rule ccontr)
    assume "\<not> e \<le> expo q"
    then have "expo q + 1 \<le> e" by simp
    then have "(2::rat) powi (expo q + 1) \<le> 2 powi e"
      by (intro power_int_increasing) simp_all
    with expo_bounds(2) [OF assms(1)] assms(2) show False by simp
  qed
qed

lemma expo_mono:
  assumes "0 < x" and "x \<le> y"
  shows "expo x \<le> expo y"
proof (rule ccontr)
  assume "\<not> expo x \<le> expo y"
  then have "expo y + 1 \<le> expo x" by simp
  then have "(2::rat) powi (expo y + 1) \<le> 2 powi (expo x)"
    by (intro power_int_increasing) simp_all
  moreover have "0 < y" using assms by simp
  ultimately show False
    using expo_bounds(1) [OF assms(1)] expo_bounds(2) [of y] assms(2) by simp
qed

lemma round_even_cases:
  "round_even v = \<lfloor>v\<rfloor> \<or> round_even v = \<lfloor>v\<rfloor> + 1"
  by (simp add: round_even_def Let_def)

lemma round_even_of_int [simp]: "round_even (of_int n) = n"
  by (simp add: round_even_def)

lemma round_even_error: "\<bar>of_int (round_even v) - v\<bar> \<le> 1 / 2"
proof -
  have "of_int \<lfloor>v\<rfloor> \<le> v" and "v < of_int \<lfloor>v\<rfloor> + 1" by linarith+
  then show ?thesis
    by (auto simp: round_even_def Let_def abs_le_iff)
qed

lemma round_even_mono:
  assumes "v \<le> w"
  shows "round_even v \<le> round_even w"
proof (cases "\<lfloor>v\<rfloor> = \<lfloor>w\<rfloor>")
  case True
  with assms show ?thesis
    by (auto simp: round_even_def Let_def)
next
  case False
  with assms have "\<lfloor>v\<rfloor> + 1 \<le> \<lfloor>w\<rfloor>"
    using floor_mono [OF assms] by linarith
  moreover have "round_even v \<le> \<lfloor>v\<rfloor> + 1" using round_even_cases [of v] by auto
  moreover have "\<lfloor>w\<rfloor> \<le> round_even w" using round_even_cases [of w] by auto
  ultimately show ?thesis by linarith
qed

lemma ulp_pos: "0 < ulp p q"
  by (simp add: ulp_def zero_less_power_int)

lemma round_to_pos: "0 < q \<Longrightarrow> round_to p q = of_int (round_even (q / ulp p q)) * ulp p q"
  by (simp add: round_to_def ulp_def Let_def)

lemma scaled_bounds:
  assumes "0 < q" and that: "0 < p"
  shows "2 ^ (p - 1) \<le> q / ulp p q" and "q / ulp p q < 2 ^ p"
proof -
  have u: "ulp p q * 2 ^ (p - 1) = 2 powi (expo q)"
  proof -
    have "(2::rat) ^ (p - 1) = 2 powi (int p - 1)"
      using that by (simp add: power_int_def nat_diff_distrib')
    then have "ulp p q * 2 ^ (p - 1) = 2 powi (expo q - (int p - 1)) * 2 powi (int p - 1)"
      by (simp add: ulp_def)
    also have "\<dots> = 2 powi (expo q - (int p - 1) + (int p - 1))"
      by (rule power_int_add [symmetric]) simp
    finally show ?thesis by simp
  qed
  have u2: "ulp p q * 2 ^ p = 2 powi (expo q + 1)"
  proof -
    have "(2::rat) ^ p = 2 ^ (p - 1) * 2" using that by (cases p) simp_all
    then have "ulp p q * 2 ^ p = 2 powi (expo q) * 2" using u by (simp add: mult.assoc [symmetric])
    also have "\<dots> = 2 powi (expo q + 1)" by (simp add: power_int_add_1)
    finally show ?thesis .
  qed
  from expo_bounds(1) [OF assms(1)] u have "ulp p q * 2 ^ (p - 1) \<le> q" by simp
  then show "2 ^ (p - 1) \<le> q / ulp p q"
    using ulp_pos [of p q] by (simp add: pos_le_divide_eq mult.commute)
  from expo_bounds(2) [OF assms(1)] u2 have "q < ulp p q * 2 ^ p" by simp
  then show "q / ulp p q < 2 ^ p"
    using ulp_pos [of p q] by (simp add: pos_divide_less_eq mult.commute)
qed

lemma ulp_scale:
  assumes "0 < p"
  shows "ulp p q * 2 ^ (p - 1) = 2 powi (expo q)" and "ulp p q * 2 ^ p = 2 powi (expo q + 1)"
proof -
  have "(2::rat) ^ (p - 1) = 2 powi (int p - 1)"
    using assms by (simp add: power_int_def nat_diff_distrib')
  then have "ulp p q * 2 ^ (p - 1) = 2 powi (expo q - (int p - 1)) * 2 powi (int p - 1)"
    by (simp add: ulp_def)
  also have "\<dots> = 2 powi (expo q - (int p - 1) + (int p - 1))"
    by (rule power_int_add [symmetric]) simp
  finally show u: "ulp p q * 2 ^ (p - 1) = 2 powi (expo q)" by simp
  have "(2::rat) ^ p = 2 ^ (p - 1) * 2" using assms by (cases p) simp_all
  then have "ulp p q * 2 ^ p = 2 powi (expo q) * 2" using u by (simp add: mult.assoc [symmetric])
  also have "\<dots> = 2 powi (expo q + 1)" by (simp add: power_int_add_1)
  finally show "ulp p q * 2 ^ p = 2 powi (expo q + 1)" .
qed

lemma round_even_scaled_bounds:
  assumes "0 < q" and "0 < p"
  shows "2 ^ (p - 1) \<le> round_even (q / ulp p q)" and "round_even (q / ulp p q) \<le> 2 ^ p"
proof -
  have "round_even (of_int (2 ^ (p - 1))) \<le> round_even (q / ulp p q)"
    using scaled_bounds(1) [OF assms] by (intro round_even_mono) simp
  then show "2 ^ (p - 1) \<le> round_even (q / ulp p q)" by (simp only: round_even_of_int)
  have "round_even (q / ulp p q) \<le> round_even (of_int (2 ^ p))"
    using scaled_bounds(2) [OF assms] by (intro round_even_mono) simp
  then show "round_even (q / ulp p q) \<le> 2 ^ p" by (simp only: round_even_of_int)
qed

lemma round_to_bounds:
  assumes "0 < q" and "0 < p"
  shows "2 powi (expo q) \<le> round_to p q" and "round_to p q \<le> 2 powi (expo q + 1)"
proof -
  note m = round_even_scaled_bounds [OF assms]
  have "(2::rat) ^ (p - 1) \<le> of_int (round_even (q / ulp p q))"
    using m(1) by (metis of_int_le_iff of_int_numeral of_int_power)
  then have "2 ^ (p - 1) * ulp p q \<le> of_int (round_even (q / ulp p q)) * ulp p q"
    using ulp_pos [of p q] by (intro mult_right_mono) simp_all
  then show "2 powi (expo q) \<le> round_to p q"
    using ulp_scale(1) [OF assms(2), of q] assms(1) by (simp add: round_to_pos mult.commute)
  have "of_int (round_even (q / ulp p q)) \<le> (2::rat) ^ p"
    using m(2) by (metis of_int_le_iff of_int_numeral of_int_power)
  then have "of_int (round_even (q / ulp p q)) * ulp p q \<le> 2 ^ p * ulp p q"
    using ulp_pos [of p q] by (intro mult_right_mono) simp_all
  then show "round_to p q \<le> 2 powi (expo q + 1)"
    using ulp_scale(2) [OF assms(2), of q] assms(1) by (simp add: round_to_pos mult.commute)
qed

lemma round_to_nonneg: "0 \<le> round_to p q"
proof (cases "0 < q")
  case True
  have "0 \<le> round_even (q / ulp p q)"
  proof -
    have "round_even (of_int 0) \<le> round_even (q / ulp p q)"
      using True ulp_pos [of p q] by (intro round_even_mono) simp
    then show ?thesis by (simp only: round_even_of_int)
  qed
  then show ?thesis using True ulp_pos [of p q] by (simp add: round_to_pos)
next
  case False
  then show ?thesis by (simp add: round_to_def)
qed

lemma round_to_pos_pos:
  assumes "0 < q" and "0 < p"
  shows "0 < round_to p q"
proof -
  have "(0::rat) < 2 powi (expo q)" by (simp add: zero_less_power_int)
  with round_to_bounds(1) [OF assms] show ?thesis by linarith
qed

lemma round_to_error:
  assumes "0 < q"
  shows "\<bar>round_to p q - q\<bar> \<le> ulp p q / 2"
proof -
  let ?u = "ulp p q"
  have "\<bar>round_to p q - q\<bar> = \<bar>of_int (round_even (q / ?u)) - q / ?u\<bar> * ?u"
  proof -
    have "round_to p q - q = (of_int (round_even (q / ?u)) - q / ?u) * ?u"
      using assms ulp_pos [of p q] by (simp add: round_to_pos algebra_simps)
    then show ?thesis using ulp_pos [of p q] by (simp add: abs_mult)
  qed
  also have "\<dots> \<le> (1 / 2) * ?u"
    using round_even_error [of "q / ?u"] ulp_pos [of p q] by (intro mult_right_mono) simp_all
  finally show ?thesis by simp
qed

lemma round_to_rel_error:
  assumes "0 < q" and "0 < p"
  shows "\<bar>round_to p q - q\<bar> \<le> q / 2 ^ p"
proof -
  have "ulp p q * 2 ^ (p - 1) \<le> q"
    using ulp_scale(1) [OF assms(2), of q] expo_bounds(1) [OF assms(1)] by simp
  moreover have "(2::rat) ^ p = 2 ^ (p - 1) * 2" using assms(2) by (cases p) simp_all
  ultimately have "ulp p q / 2 \<le> q / 2 ^ p"
    by (simp add: field_simps)
  with round_to_error [OF assms(1), of p] show ?thesis by linarith
qed

lemma round_to_mono:
  assumes "x \<le> y" and "0 < p"
  shows "round_to p x \<le> round_to p y"
proof (cases "0 < x")
  case False
  then have "round_to p x = 0" by (simp add: round_to_def)
  then show ?thesis using round_to_nonneg [of p y] by simp
next
  case True
  then have y: "0 < y" using assms(1) by simp
  show ?thesis
  proof (cases "expo x = expo y")
    case True
    then have u: "ulp p x = ulp p y" by (simp add: ulp_def)
    have "x / ulp p y \<le> y / ulp p y"
      using assms(1) ulp_pos [of p y] by (simp add: divide_right_mono)
    then have "round_even (x / ulp p y) \<le> round_even (y / ulp p y)"
      by (rule round_even_mono)
    then have "(of_int (round_even (x / ulp p y)) :: rat) \<le> of_int (round_even (y / ulp p y))"
      by simp
    then have "of_int (round_even (x / ulp p y)) * ulp p y
                 \<le> of_int (round_even (y / ulp p y)) * ulp p y"
      using ulp_pos [of p y] by (intro mult_right_mono) simp_all
    then show ?thesis using \<open>0 < x\<close> y u by (simp add: round_to_pos)
  next
    case False
    with expo_mono [OF \<open>0 < x\<close> assms(1)] have "expo x + 1 \<le> expo y" by simp
    then have "(2::rat) powi (expo x + 1) \<le> 2 powi (expo y)"
      by (intro power_int_increasing) simp_all
    with round_to_bounds(2) [OF \<open>0 < x\<close> assms(2)] round_to_bounds(1) [OF y assms(2)]
    show ?thesis by linarith
  qed
qed

lemma round_to_fix:
  assumes "0 < r" and "r / ulp p r = of_int m"
  shows "round_to p r = r"
proof -
  have "round_to p r = of_int m * ulp p r"
    using assms by (simp add: round_to_pos)
  also have "\<dots> = r"
    using assms(2) [symmetric] ulp_pos [of p r] by simp
  finally show ?thesis .
qed

lemma round_to_idem:
  assumes "0 < p"
  shows "round_to p (round_to p q) = round_to p q"
proof (cases "0 < q")
  case False
  then show ?thesis by (simp add: round_to_def)
next
  case True
  let ?u = "ulp p q"
  let ?m = "round_even (q / ?u)"
  let ?r = "round_to p q"
  have r: "?r = of_int ?m * ?u" using True by (rule round_to_pos)
  have rpos: "0 < ?r" using True assms by (rule round_to_pos_pos)
  note m = round_even_scaled_bounds [OF True assms]
  show ?thesis
  proof (cases "?m < 2 ^ p")
    case True
    then have "(of_int ?m :: rat) < 2 ^ p"
      by (metis of_int_less_iff of_int_numeral of_int_power)
    then have "of_int ?m * ?u < 2 ^ p * ?u"
      using ulp_pos [of p q] by (intro mult_strict_right_mono) simp_all
    then have "?r < 2 powi (expo q + 1)"
      using ulp_scale(2) [OF assms, of q] r by (simp add: mult.commute)
    with round_to_bounds(1) [OF \<open>0 < q\<close> assms] rpos have "expo ?r = expo q"
      by (intro expo_unique)
    then have "ulp p ?r = ?u" by (simp add: ulp_def)
    then have "?r / ulp p ?r = of_int ?m"
      using r ulp_pos [of p q] by simp
    with rpos show ?thesis by (rule round_to_fix)
  next
    case False
    with m(2) have meq: "?m = 2 ^ p" by simp
    then have req: "?r = 2 powi (expo q + 1)"
      using r ulp_scale(2) [OF assms, of q] by (simp add: mult.commute)
    have "(2::rat) powi (expo q + 1) < 2 powi (expo q + 1 + 1)"
      by (intro power_int_strict_increasing) simp_all
    with req rpos have e: "expo ?r = expo q + 1"
      by (intro expo_unique) simp_all
    have "ulp p ?r * 2 ^ (p - 1) = ?r"
      using ulp_scale(1) [OF assms, of ?r] e req by simp
    then have "?r / ulp p ?r = of_int (2 ^ (p - 1))"
      using ulp_pos [of p ?r] by (simp add: field_simps)
    with rpos show ?thesis by (rule round_to_fix)
  qed
qed

lemma round_to_of_nat:
  assumes "n < 2 ^ p"
  shows "round_to p (of_nat n) = of_nat n"
proof (cases "n = 0")
  case True
  then show ?thesis by (simp add: round_to_def)
next
  case False
  then have npos: "(0::rat) < of_nat n" by simp
  from assms have p: "0 < p" using False by (cases p) simp_all
  let ?e = "expo (of_nat n)"
  have "(of_nat n :: rat) < 2 ^ p"
    using assms by (metis of_nat_less_iff of_nat_numeral of_nat_power)
  with expo_bounds(1) [OF npos] have "(2::rat) powi ?e < 2 ^ p"
    by (rule le_less_trans)
  then have "(2::rat) powi ?e < 2 powi (int p)"
    by (simp only: power_int_of_nat)
  then have "?e < int p"
    by (rule power_int_le_imp_less_exp [rotated]) simp_all
  then have k: "?e - (int p - 1) \<le> 0" by simp
  define k where "k = nat (int p - 1 - ?e)"
  have "ulp p (of_nat n) = 2 powi (- int k)"
    using k by (simp add: ulp_def k_def)
  also have "\<dots> = 1 / 2 ^ k"
    by (simp add: power_int_minus field_simps)
  finally have "of_nat n / ulp p (of_nat n) = of_int (int n * 2 ^ k)"
    by simp
  with npos show ?thesis by (rule round_to_fix)
qed

lemma round_to_rel_error_result:
  assumes "0 < q" and "0 < p"
  shows "\<bar>round_to p q - q\<bar> \<le> round_to p q / 2 ^ p"
proof -
  have "ulp p q * 2 ^ (p - 1) \<le> round_to p q"
    using ulp_scale(1) [OF assms(2), of q] round_to_bounds(1) [OF assms] by simp
  moreover have "(2::rat) ^ p = 2 ^ (p - 1) * 2" using assms(2) by (cases p) simp_all
  ultimately have "ulp p q / 2 \<le> round_to p q / 2 ^ p"
    by (simp add: field_simps)
  with round_to_error [OF assms(1), of p] show ?thesis by linarith
qed

lemma double_above:
  assumes "round_to p s = s" and "round_to p D < s" and "0 < p"
  shows "D \<le> s"
proof (rule ccontr)
  assume "\<not> D \<le> s"
  then have "s \<le> D" by simp
  from round_to_mono [OF this assms(3)] assms(1,2) show False by simp
qed

lemma double_below:
  assumes "round_to p s = s" and "s < round_to p D" and "0 < p"
  shows "s \<le> D"
proof (rule ccontr)
  assume "\<not> s \<le> D"
  then have "D \<le> s" by simp
  from round_to_mono [OF this assms(3)] assms(1,2) show False by simp
qed

lemma tolerance_width_limited:
  fixes S s a DW B e :: rat
  assumes "0 < S" and "0 < DW" and "0 < s" and "0 \<le> e"
    and s: "\<bar>s - S\<bar> \<le> S * e"
    and a: "\<bar>a - DW / s\<bar> \<le> DW / s * e"
    and B: "DW / s \<le> B"
  shows "\<bar>a - DW / S\<bar> \<le> 2 * B * e"
proof -
  have "DW / s - DW / S = DW * (S - s) / (s * S)"
    using assms(1,3) by (simp add: field_simps)
  then have "\<bar>DW / s - DW / S\<bar> = DW * \<bar>s - S\<bar> / (s * S)"
    using assms(1,2,3) by (simp add: abs_mult abs_minus_commute)
  also have "\<dots> \<le> DW * (S * e) / (s * S)"
    using s assms(1,2,3) by (intro divide_right_mono mult_left_mono) simp_all
  also have "\<dots> = DW / s * e"
    using assms(1,3) by simp
  finally have x: "\<bar>DW / s - DW / S\<bar> \<le> DW / s * e" .
  have "DW / s * e \<le> B * e"
    using B assms(4) by (rule mult_right_mono)
  with a x show ?thesis by linarith
qed

lemma tolerance_height_limited:
  fixes S s b DH B e :: rat
  assumes "0 < DH" and "0 \<le> e"
    and s: "\<bar>s - S\<bar> \<le> s * e"
    and b: "\<bar>b - DH * s\<bar> \<le> DH * s * e"
    and B: "DH * s \<le> B"
  shows "\<bar>b - DH * S\<bar> \<le> 2 * B * e"
proof -
  have "\<bar>DH * s - DH * S\<bar> = DH * \<bar>s - S\<bar>"
    using assms(1) by (simp add: right_diff_distrib [symmetric] abs_mult)
  also have "\<dots> \<le> DH * (s * e)"
    using s assms(1) by (intro mult_left_mono) simp_all
  finally have x: "\<bar>DH * s - DH * S\<bar> \<le> DH * s * e" by (simp add: mult.assoc)
  have "DH * s * e \<le> B * e"
    using B assms(2) by (rule mult_right_mono)
  with b x show ?thesis by linarith
qed

lemma tolerance_equal_ratio:
  fixes S s DW DH B e :: rat
  assumes "0 < S" and "0 < DW" and "0 < DH" and "0 \<le> e" and "e \<le> 1"
    and s: "\<bar>s - S\<bar> \<le> S * e"
    and d: "\<bar>s - DW / DH\<bar> \<le> s * e"
    and B: "DH \<le> B"
  shows "\<bar>DH - DW / S\<bar> \<le> 3 * B * e"
proof -
  let ?D = "DW / DH"
  have Dpos: "0 < ?D" using assms(2,3) by simp
  have "s \<le> S + S * e" using s by linarith
  then have "s * e \<le> (S + S * e) * e" using assms(4) by (rule mult_right_mono)
  also have "\<dots> = S * e + S * (e * e)" by (simp add: algebra_simps)
  also have "\<dots> \<le> S * e + S * e"
  proof -
    have "e * e \<le> 1 * e" using assms(4,5) by (intro mult_right_mono) simp_all
    then have "S * (e * e) \<le> S * e" using assms(1) by (simp add: mult_left_mono)
    then show ?thesis by simp
  qed
  finally have se: "s * e \<le> 2 * (S * e)" by simp
  have "\<bar>S - ?D\<bar> \<le> \<bar>s - S\<bar> + \<bar>s - ?D\<bar>" by linarith
  with s d se have SD: "\<bar>S - ?D\<bar> \<le> 3 * (S * e)" by linarith
  have "DH - DW / S = DH * (S - ?D) / S"
    using assms(1,3) by (simp add: field_simps)
  then have "\<bar>DH - DW / S\<bar> = DH * \<bar>S - ?D\<bar> / S"
    using assms(1,3) by (simp add: abs_mult)
  also have "\<dots> \<le> DH * (3 * (S * e)) / S"
    using SD assms(1,3) by (intro divide_right_mono mult_left_mono) simp_all
  also have "\<dots> = DH * (3 * e)" using assms(1) by simp
  also have "\<dots> \<le> B * (3 * e)" using B assms(4) by (intro mult_right_mono) simp_all
  finally show ?thesis by (simp add: mult.commute mult.left_commute)
qed

lemma unsigned_of_double_le:
  fixes w :: "32 word"
  assumes "0 \<le> q" and "q \<le> of_nat (unat w)"
  shows "\<exists>v. unsigned_of_double (Finite q) = Some v \<and> int (unat v) = \<lfloor>q\<rfloor> \<and> v \<le> w"
proof -
  have f0: "0 \<le> \<lfloor>q\<rfloor>" using assms(1) by simp
  have "\<lfloor>q\<rfloor> \<le> \<lfloor>(of_nat (unat w) :: rat)\<rfloor>" using assms(2) by (rule floor_mono)
  then have fw: "\<lfloor>q\<rfloor> \<le> int (unat w)" by (simp only: floor_of_nat)
  have "unat w < 2 ^ 32" using unsigned_less [of w, where 'a = nat] by simp
  then have "int (unat w) < 2 ^ 32" by (metis of_nat_less_iff of_nat_numeral of_nat_power)
  with fw have f32: "\<lfloor>q\<rfloor> < 2 ^ 32" by linarith
  let ?v = "word_of_int \<lfloor>q\<rfloor> :: 32 word"
  have "uint ?v = \<lfloor>q\<rfloor>"
    using f0 f32 by (simp add: uint_word_of_int take_bit_int_eq_self)
  then have u: "int (unat ?v) = \<lfloor>q\<rfloor>" by simp
  with fw have "unat ?v \<le> unat w" by linarith
  then have "?v \<le> w" by (simp add: word_le_nat_alt)
  with u f32 show ?thesis by simp
qed

lemma centered_word:
  fixes v w :: "32 word"
  assumes "v \<le> w"
  shows "\<bar>int (unat ((w - v) div 2 + v div 2)) - int (unat (w div 2))\<bar> \<le> 1"
proof -
  have le: "unat v \<le> unat w" using assms by (simp add: word_le_nat_alt)
  have sub: "unat (w - v) = unat w - unat v" using assms by (rule unat_sub)
  have d1: "unat ((w - v) div 2) = (unat w - unat v) div 2"
    by (simp add: unat_div sub)
  have d2: "unat (v div 2) = unat v div 2" and d3: "unat (w div 2) = unat w div 2"
    by (simp_all add: unat_div)
  have "unat w < 2 ^ 32" using unsigned_less [of w, where 'a = nat] by simp
  then have "unat ((w - v) div 2) + unat (v div 2) < 2 ^ LENGTH(32)"
    using le unfolding d1 d2 by simp
  then have "unat ((w - v) div 2 + v div 2) = unat ((w - v) div 2) + unat (v div 2)"
    by (simp only: unat_add_lem)
  then have eq: "unat ((w - v) div 2 + v div 2) = (unat w - unat v) div 2 + unat v div 2"
    by (simp only: d1 d2)
  have n1: "(unat w - unat v) div 2 + unat v div 2 \<le> unat w div 2"
    and n2: "unat w div 2 \<le> (unat w - unat v) div 2 + unat v div 2 + 1"
    using le by arith+
  have "\<bar>int ((unat w - unat v) div 2 + unat v div 2) - int (unat w div 2)\<bar> \<le> 1"
    using n1 n2 by linarith
  then show ?thesis by (simp only: eq d3)
qed

lemma of_nat_unat_bounds:
  fixes w :: "32 word"
  shows "(of_nat (unat w) :: rat) < 2 ^ 32"
proof -
  have "unat w < 2 ^ 32" using unsigned_less [of w, where 'a = nat] by simp
  then show ?thesis by (metis of_nat_less_iff of_nat_numeral of_nat_power)
qed

lemma round_to_53_unat:
  fixes w :: "32 word"
  shows "round_to 53 (of_nat (unat w)) = of_nat (unat w)"
proof (rule round_to_of_nat)
  have "unat w < 2 ^ 32" using unsigned_less [of w, where 'a = nat] by simp
  also have "(2::nat) ^ 32 \<le> 2 ^ 53" by simp
  finally show "unat w < 2 ^ 53" .
qed

lemma floor_tolerance:
  fixes a H :: rat
  assumes "\<bar>a - H\<bar> \<le> 1 / 2 ^ 20" and "int n = \<lfloor>a\<rfloor>"
  shows "\<bar>of_nat n - H\<bar> < 1 + 1 / 2 ^ 19"
proof -
  have "(of_nat n :: rat) = of_int (int n)" by simp
  also have "\<dots> = of_int \<lfloor>a\<rfloor>" by (simp only: assms(2))
  finally have n: "(of_nat n :: rat) = of_int \<lfloor>a\<rfloor>" .
  have "of_int \<lfloor>a\<rfloor> \<le> a" and "a < of_int \<lfloor>a\<rfloor> + 1" by linarith+
  moreover have "(1::rat) / 2 ^ 20 < 1 / 2 ^ 19" by simp
  ultimately show ?thesis using assms(1) unfolding n by linarith
qed

lemma box_width_limited:
  fixes dh :: "32 word" and SW SH DW DH :: rat
  assumes pos: "0 < SW" "0 < SH" "0 < DW" "0 < DH"
    and DH: "DH = of_nat (unat dh)"
    and gt: "round_to 53 (DW / DH) < round_to 53 (SW / SH)"
  shows "\<exists>h. unsigned_of_double (Finite (round_to 53 (DW / round_to 53 (SW / SH)))) = Some h
           \<and> h \<le> dh \<and> \<bar>of_nat (unat h) - DW * SH / SW\<bar> < (1 + 1 / 2 ^ 19 :: rat)"
proof -
  define S where "S = SW / SH"
  define s where "s = round_to 53 S"
  define X where "X = DW / s"
  define a where "a = round_to 53 X"
  have Spos: "0 < S" using pos by (simp add: S_def)
  have spos: "0 < s" unfolding s_def using Spos by (rule round_to_pos_pos) simp
  have Xpos: "0 < X" using pos spos by (simp add: X_def)
  have "round_to 53 s = s" unfolding s_def by (rule round_to_idem) simp
  moreover have "round_to 53 (DW / DH) < s" using gt by (simp add: s_def S_def)
  ultimately have "DW / DH \<le> s" by (rule double_above) simp
  then have "DW \<le> s * DH" using pos by (simp add: pos_divide_le_eq)
  then have XB: "X \<le> DH" using spos by (simp add: X_def pos_divide_le_eq mult.commute)
  have "a \<le> round_to 53 DH" unfolding a_def using XB by (rule round_to_mono) simp
  also have "\<dots> = DH" unfolding DH by (rule round_to_53_unat)
  finally have aB: "a \<le> of_nat (unat dh)" by (simp only: DH)
  have a0: "0 \<le> a" unfolding a_def by (rule round_to_nonneg)
  from unsigned_of_double_le [OF a0 aB] obtain h
    where h: "unsigned_of_double (Finite a) = Some h" "int (unat h) = \<lfloor>a\<rfloor>" "h \<le> dh"
    by blast
  have e1: "\<bar>s - S\<bar> \<le> S * (1 / 2 ^ 53)"
    using round_to_rel_error [OF Spos, of 53] by (simp add: s_def)
  have e2: "\<bar>a - DW / s\<bar> \<le> DW / s * (1 / 2 ^ 53)"
    using round_to_rel_error [OF Xpos, of 53] by (simp add: a_def X_def)
  have "DH < 2 ^ 32" unfolding DH by (rule of_nat_unat_bounds)
  with XB have e3: "DW / s \<le> 2 ^ 32" by (simp add: X_def)
  from tolerance_width_limited [OF Spos pos(3) spos _ e1 e2 e3]
  have "\<bar>a - DW / S\<bar> \<le> 2 * 2 ^ 32 * (1 / 2 ^ 53)" by simp
  then have "\<bar>a - DW * SH / SW\<bar> \<le> 1 / 2 ^ 20" by (simp add: S_def)
  from floor_tolerance [OF this h(2)] h(1,3) show ?thesis
    unfolding a_def X_def s_def S_def by blast
qed

lemma box_height_limited:
  fixes dw :: "32 word" and SW SH DW DH :: rat
  assumes pos: "0 < SW" "0 < SH" "0 < DW" "0 < DH"
    and DW: "DW = of_nat (unat dw)"
    and lt: "round_to 53 (SW / SH) < round_to 53 (DW / DH)"
  shows "\<exists>v. unsigned_of_double (Finite (round_to 53 (DH * round_to 53 (SW / SH)))) = Some v
           \<and> v \<le> dw \<and> \<bar>of_nat (unat v) - DH * SW / SH\<bar> < (1 + 1 / 2 ^ 19 :: rat)"
proof -
  define S where "S = SW / SH"
  define s where "s = round_to 53 S"
  define Y where "Y = DH * s"
  define b where "b = round_to 53 Y"
  have Spos: "0 < S" using pos by (simp add: S_def)
  have spos: "0 < s" unfolding s_def using Spos by (rule round_to_pos_pos) simp
  have Ypos: "0 < Y" using pos spos by (simp add: Y_def)
  have "round_to 53 s = s" unfolding s_def by (rule round_to_idem) simp
  moreover have "s < round_to 53 (DW / DH)" using lt by (simp add: s_def S_def)
  ultimately have "s \<le> DW / DH" by (rule double_below) simp
  then have YB: "Y \<le> DW" using pos by (simp add: Y_def pos_le_divide_eq mult.commute)
  have "b \<le> round_to 53 DW" unfolding b_def using YB by (rule round_to_mono) simp
  also have "\<dots> = DW" unfolding DW by (rule round_to_53_unat)
  finally have bB: "b \<le> of_nat (unat dw)" by (simp only: DW)
  have b0: "0 \<le> b" unfolding b_def by (rule round_to_nonneg)
  from unsigned_of_double_le [OF b0 bB] obtain v
    where v: "unsigned_of_double (Finite b) = Some v" "int (unat v) = \<lfloor>b\<rfloor>" "v \<le> dw"
    by blast
  have e1: "\<bar>s - S\<bar> \<le> s * (1 / 2 ^ 53)"
    using round_to_rel_error_result [OF Spos, of 53] by (simp add: s_def)
  have e2: "\<bar>b - DH * s\<bar> \<le> DH * s * (1 / 2 ^ 53)"
    using round_to_rel_error [OF Ypos, of 53] by (simp add: b_def Y_def)
  have "DW < 2 ^ 32" unfolding DW by (rule of_nat_unat_bounds)
  with YB have e3: "DH * s \<le> 2 ^ 32" by (simp add: Y_def)
  from tolerance_height_limited [OF pos(4) _ e1 e2 e3]
  have "\<bar>b - DH * S\<bar> \<le> 2 * 2 ^ 32 * (1 / 2 ^ 53)" by simp
  then have "\<bar>b - DH * SW / SH\<bar> \<le> 1 / 2 ^ 20" by (simp add: S_def)
  from floor_tolerance [OF this v(2)] v(1,3) show ?thesis
    unfolding b_def Y_def s_def S_def by blast
qed

lemma box_equal_ratio:
  fixes dh :: "32 word" and SW SH DW DH :: rat
  assumes pos: "0 < SW" "0 < SH" "0 < DW" "0 < DH"
    and DH: "DH = of_nat (unat dh)"
    and eq: "round_to 53 (SW / SH) = round_to 53 (DW / DH)"
  shows "\<bar>DH - DW * SH / SW\<bar> < (1 + 1 / 2 ^ 19 :: rat)"
proof -
  define S where "S = SW / SH"
  define s where "s = round_to 53 S"
  have Spos: "0 < S" using pos by (simp add: S_def)
  have Dpos: "0 < DW / DH" using pos by simp
  have e1: "\<bar>s - S\<bar> \<le> S * (1 / 2 ^ 53)"
    using round_to_rel_error [OF Spos, of 53] by (simp add: s_def)
  have e2: "\<bar>s - DW / DH\<bar> \<le> s * (1 / 2 ^ 53)"
    using round_to_rel_error_result [OF Dpos, of 53] eq by (simp add: s_def S_def)
  have "DH < 2 ^ 32" unfolding DH by (rule of_nat_unat_bounds)
  then have e3: "DH \<le> 2 ^ 32" by simp
  from tolerance_equal_ratio [OF Spos pos(3,4) _ _ e1 e2 e3]
  have "\<bar>DH - DW / S\<bar> \<le> 3 * 2 ^ 32 * (1 / 2 ^ 53)" by simp
  then show ?thesis by (simp add: S_def)
qed

lemma unat_rat_pos:
  fixes w :: "32 word"
  assumes "w \<noteq> 0" and "W = of_nat (unat w)"
  shows "(0::rat) < W"
proof -
  from assms(1) have "0 < unat w" by (simp add: unat_gt_0)
  then have "(0::rat) < of_nat (unat w)" by (simp only: of_nat_0_less_iff)
  then show ?thesis by (simp only: assms(2))
qed

lemma compute_bounding_box_unfold:
  assumes SW: "SW = of_nat (unat (display_width cfg))"
    and SH: "SH = of_nat (unat (display_height cfg))"
    and DW: "DW = of_nat (unat (r_width dst))"
    and DH: "DH = of_nat (unat (r_height dst))"
    and pos: "0 < SW" "0 < SH" "0 < DW" "0 < DH"
  shows "compute_bounding_box cfg dst res =
     (if round_to 53 (DW / DH) < round_to 53 (SW / SH) then
        (case unsigned_of_double (Finite (round_to 53 (DW / round_to 53 (SW / SH)))) of
           None \<Rightarrow> None
         | Some h \<Rightarrow> Some \<lparr>r_x = 0, r_y = (r_height dst - h) div 2,
                           r_width = r_width dst, r_height = h\<rparr>)
      else if round_to 53 (SW / SH) < round_to 53 (DW / DH) then
        (case unsigned_of_double (Finite (round_to 53 (DH * round_to 53 (SW / SH)))) of
           None \<Rightarrow> None
         | Some v \<Rightarrow> Some \<lparr>r_x = (r_width dst - v) div 2, r_y = 0,
                           r_width = v, r_height = r_height dst\<rparr>)
      else Some \<lparr>r_x = 0, r_y = 0, r_width = r_width dst, r_height = r_height dst\<rparr>)"
proof -
  have s: "0 < round_to 53 (SW / SH)"
    using pos by (intro round_to_pos_pos) simp_all
  have ne: "SH \<noteq> 0" "DH \<noteq> 0" "round_to 53 (SW / SH) \<noteq> 0"
    using pos s by simp_all
  have ratios: "ddiv (Finite SW) (Finite SH) = Finite (round_to 53 (SW / SH))"
    "ddiv (Finite DW) (Finite DH) = Finite (round_to 53 (DW / DH))"
    "ddiv (Finite DW) (Finite (round_to 53 (SW / SH)))
       = Finite (round_to 53 (DW / round_to 53 (SW / SH)))"
    using ne by simp_all
  show ?thesis
    unfolding compute_bounding_box_def double_of_unsigned_def Let_def rectangle_t.select_convs
      SW [symmetric] SH [symmetric] DW [symmetric] DH [symmetric] ratios dgt_def dlt.simps
      dmul.simps
    by (cases res) (simp split: option.split)
qed

lemma example_rounding:
  "round_to 53 (16 / 9) = 2001599834386887 / 1125899906842624"
  "round_to 53 1 < round_to 53 (16 / 9)"
  "round_to 53 (800 / round_to 53 (16 / 9)) = 450"
  by code_simp+

lemma centered_zero:
  fixes w :: "32 word"
  shows "\<bar>int (unat (0 + w div 2)) - int (unat (w div 2))\<bar> \<le> 1"
  by simp

subsection \<open>The bounding box fits, keeps the aspect ratio and is centred\<close>

text \<open>
  Claim C1. For every source display size and destination window size whose widths and
  heights are positive, \<^verbatim>\<open>compute_bounding_box\<close> returns a rectangle (none of its
  conversions from \<^verbatim>\<open>double\<close> to \<^verbatim>\<open>unsigned\<close> is out of range). Its width is at most the
  destination's and its height is at most the destination's. It keeps the source's aspect
  ratio within rounding tolerance: either it has the destination's width and its height
  differs from the exact value \<open>dst.width * src.height / src.width\<close> by less than
  \<open>1 + 2\<^sup>-\<^sup>1\<^sup>9\<close>, or it has the destination's height and its width differs from the exact
  value \<open>dst.height * src.width / src.height\<close> by less than \<open>1 + 2\<^sup>-\<^sup>1\<^sup>9\<close> (one pixel for the
  truncation, the rest for the three roundings of binary64). It is centred:
  \<open>x + width / 2\<close> is within one pixel of \<open>dst.width / 2\<close>, and likewise for \<open>y\<close>, with the
  divisions of \<^verbatim>\<open>unsigned\<close>. For the source 1920 by 1080 and the destination 800 by 800 the
  result is \<open>{x = 0, y = 175, width = 800, height = 450}\<close>.
\<close>

theorem compute_bounding_box_fits:
  assumes "display_width cfg \<noteq> 0" and "display_height cfg \<noteq> 0"
    and "r_width dst \<noteq> 0" and "r_height dst \<noteq> 0"
  shows "(\<exists>box. compute_bounding_box cfg dst res = Some box
      \<and> r_width box \<le> r_width dst \<and> r_height box \<le> r_height dst
      \<and> (r_width box = r_width dst
           \<and> \<bar>of_nat (unat (r_height box))
               - of_nat (unat (r_width dst)) * of_nat (unat (display_height cfg))
                 / of_nat (unat (display_width cfg))\<bar> < (1 + 1 / 2 ^ 19 :: rat)
         \<or> r_height box = r_height dst
           \<and> \<bar>of_nat (unat (r_width box))
               - of_nat (unat (r_height dst)) * of_nat (unat (display_width cfg))
                 / of_nat (unat (display_height cfg))\<bar> < (1 + 1 / 2 ^ 19 :: rat))
      \<and> \<bar>int (unat (r_x box + r_width box div 2)) - int (unat (r_width dst div 2))\<bar> \<le> 1
      \<and> \<bar>int (unat (r_y box + r_height box div 2)) - int (unat (r_height dst div 2))\<bar> \<le> 1)
    \<and> compute_bounding_box \<lparr>display_width = 1920, display_height = 1080\<rparr>
          \<lparr>r_x = 0, r_y = 0, r_width = 800, r_height = 800\<rparr> res
        = Some \<lparr>r_x = 0, r_y = 175, r_width = 800, r_height = 450\<rparr>"
proof (rule conjI)
  define SW :: rat where "SW = of_nat (unat (display_width cfg))"
  define SH :: rat where "SH = of_nat (unat (display_height cfg))"
  define DW :: rat where "DW = of_nat (unat (r_width dst))"
  define DH :: rat where "DH = of_nat (unat (r_height dst))"
  note defs = SW_def SH_def DW_def DH_def
  have pos: "0 < SW" "0 < SH" "0 < DW" "0 < DH"
    using assms by (auto intro: unat_rat_pos simp: defs)
  note unfold = compute_bounding_box_unfold [OF defs pos, of res]
  let ?s = "round_to 53 (SW / SH)" and ?d = "round_to 53 (DW / DH)"
  let ?goal = "\<exists>box. compute_bounding_box cfg dst res = Some box
      \<and> r_width box \<le> r_width dst \<and> r_height box \<le> r_height dst
      \<and> (r_width box = r_width dst
           \<and> \<bar>of_nat (unat (r_height box)) - DW * SH / SW\<bar> < (1 + 1 / 2 ^ 19 :: rat)
         \<or> r_height box = r_height dst
           \<and> \<bar>of_nat (unat (r_width box)) - DH * SW / SH\<bar> < (1 + 1 / 2 ^ 19 :: rat))
      \<and> \<bar>int (unat (r_x box + r_width box div 2)) - int (unat (r_width dst div 2))\<bar> \<le> 1
      \<and> \<bar>int (unat (r_y box + r_height box div 2)) - int (unat (r_height dst div 2))\<bar> \<le> 1"
  have ?goal
  proof (cases "?d < ?s")
    case True
    from box_width_limited [OF pos DH_def True] obtain h
      where h: "unsigned_of_double (Finite (round_to 53 (DW / ?s))) = Some h" "h \<le> r_height dst"
        "\<bar>of_nat (unat h) - DW * SH / SW\<bar> < (1 + 1 / 2 ^ 19 :: rat)"
      by blast
    have "compute_bounding_box cfg dst res
            = Some \<lparr>r_x = 0, r_y = (r_height dst - h) div 2,
                     r_width = r_width dst, r_height = h\<rparr>"
      using True h(1) by (simp only: unfold if_True option.case)
    with h(2,3) centered_word [OF h(2)] centered_zero [of "r_width dst"] show ?thesis
      by simp
  next
    case False
    show ?thesis
    proof (cases "?s < ?d")
      case True
      from box_height_limited [OF pos DW_def True] obtain v
        where v: "unsigned_of_double (Finite (round_to 53 (DH * ?s))) = Some v" "v \<le> r_width dst"
          "\<bar>of_nat (unat v) - DH * SW / SH\<bar> < (1 + 1 / 2 ^ 19 :: rat)"
        by blast
      have "compute_bounding_box cfg dst res
              = Some \<lparr>r_x = (r_width dst - v) div 2, r_y = 0,
                       r_width = v, r_height = r_height dst\<rparr>"
        using \<open>\<not> ?d < ?s\<close> True v(1) by (simp only: unfold if_True if_False option.case)
      with v(2,3) centered_word [OF v(2)] centered_zero [of "r_height dst"] show ?thesis
        by simp
    next
      case False
      with \<open>\<not> ?d < ?s\<close> have eq: "?s = ?d" by simp
      have "compute_bounding_box cfg dst res
              = Some \<lparr>r_x = 0, r_y = 0, r_width = r_width dst, r_height = r_height dst\<rparr>"
        using \<open>\<not> ?d < ?s\<close> False by (simp only: unfold if_False)
      moreover from box_equal_ratio [OF pos DH_def eq]
      have "\<bar>of_nat (unat (r_height dst)) - DW * SH / SW\<bar> < (1 + 1 / 2 ^ 19 :: rat)"
        by (simp only: DH_def)
      ultimately show ?thesis
        using centered_zero [of "r_width dst"] centered_zero [of "r_height dst"] by simp
    qed
  qed
  then show "\<exists>box. compute_bounding_box cfg dst res = Some box
      \<and> r_width box \<le> r_width dst \<and> r_height box \<le> r_height dst
      \<and> (r_width box = r_width dst
           \<and> \<bar>of_nat (unat (r_height box))
               - of_nat (unat (r_width dst)) * of_nat (unat (display_height cfg))
                 / of_nat (unat (display_width cfg))\<bar> < (1 + 1 / 2 ^ 19 :: rat)
         \<or> r_height box = r_height dst
           \<and> \<bar>of_nat (unat (r_width box))
               - of_nat (unat (r_height dst)) * of_nat (unat (display_width cfg))
                 / of_nat (unat (display_height cfg))\<bar> < (1 + 1 / 2 ^ 19 :: rat))
      \<and> \<bar>int (unat (r_x box + r_width box div 2)) - int (unat (r_width dst div 2))\<bar> \<le> 1
      \<and> \<bar>int (unat (r_y box + r_height box div 2)) - int (unat (r_height dst div 2))\<bar> \<le> 1"
    by (simp only: defs)
next
  have u: "unsigned_of_double (Finite 450) = Some 450" by simp
  have "compute_bounding_box \<lparr>display_width = 1920, display_height = 1080\<rparr>
          \<lparr>r_x = 0, r_y = 0, r_width = 800, r_height = 800\<rparr> res
        = Some \<lparr>r_x = 0, r_y = (800 - 450) div 2, r_width = 800, r_height = 450\<rparr>"
    by (subst compute_bounding_box_unfold [where SW = 1920 and SH = 1080 and DW = 800 and DH = 800])
       (simp_all add: example_rounding(2,3))
  then show "compute_bounding_box \<lparr>display_width = 1920, display_height = 1080\<rparr>
          \<lparr>r_x = 0, r_y = 0, r_width = 800, r_height = 800\<rparr> res
        = Some \<lparr>r_x = 0, r_y = 175, r_width = 800, r_height = 450\<rparr>"
    by simp
qed

theorem compute_bounding_box_fits_witness:
  "\<exists>box. compute_bounding_box \<lparr>display_width = 4, display_height = 3\<rparr>
            \<lparr>r_x = 0, r_y = 0, r_width = 100, r_height = 100\<rparr>
            \<lparr>r_x = 0, r_y = 0, r_width = 0, r_height = 0\<rparr> = Some box
        \<and> r_width box \<le> 100 \<and> r_height box \<le> 100
        \<and> \<bar>int (unat (r_x box + r_width box div 2)) - 50\<bar> \<le> 1
        \<and> \<bar>int (unat (r_y box + r_height box div 2)) - 50\<bar> \<le> 1"
proof -
  from compute_bounding_box_fits [of "\<lparr>display_width = 4, display_height = 3\<rparr>"
      "\<lparr>r_x = 0, r_y = 0, r_width = 100, r_height = 100\<rparr>"
      "\<lparr>r_x = 0, r_y = 0, r_width = 0, r_height = 0\<rparr>"]
  obtain box where
    "compute_bounding_box \<lparr>display_width = 4, display_height = 3\<rparr>
            \<lparr>r_x = 0, r_y = 0, r_width = 100, r_height = 100\<rparr>
            \<lparr>r_x = 0, r_y = 0, r_width = 0, r_height = 0\<rparr> = Some box"
    "r_width box \<le> 100" "r_height box \<le> 100"
    "\<bar>int (unat (r_x box + r_width box div 2)) - 50\<bar> \<le> 1"
    "\<bar>int (unat (r_y box + r_height box div 2)) - 50\<bar> \<le> 1"
    by auto
  then show ?thesis by blast
qed

subsection \<open>Deinterlacing and colour conversion\<close>

lemma line_height_value:
  fixes hgt :: "32 word"
  assumes "hgt \<noteq> 0"
  shows "\<exists>lh. float_of_double (ddiv (Finite 1) (double_of_unsigned hgt)) = Finite lh
          \<and> \<bar>lh - 1 / of_nat (unat hgt)\<bar> \<le> (1 / of_nat (unat hgt)) / 2 ^ 23"
proof -
  define H :: rat where "H = of_nat (unat hgt)"
  have Hpos: "0 < H" using assms H_def by (rule unat_rat_pos)
  define q0 where "q0 = 1 / H"
  define q1 where "q1 = round_to 53 q0"
  define q2 where "q2 = round_to 24 q1"
  have q0: "0 < q0" using Hpos by (simp add: q0_def)
  have q1: "0 < q1" unfolding q1_def using q0 by (rule round_to_pos_pos) simp
  have e1: "\<bar>q1 - q0\<bar> \<le> q0 / 2 ^ 53"
    unfolding q1_def using q0 by (rule round_to_rel_error) simp
  have e2: "\<bar>q2 - q1\<bar> \<le> q1 / 2 ^ 24"
    unfolding q2_def using q1 by (rule round_to_rel_error) simp
  have "q1 \<le> q0 + q0 / 2 ^ 53" using e1 by linarith
  then have "q1 / 2 ^ 24 \<le> (q0 + q0 / 2 ^ 53) / 2 ^ 24" by (simp add: divide_right_mono)
  with e1 e2 have "\<bar>q2 - q0\<bar> \<le> q0 / 2 ^ 53 + (q0 + q0 / 2 ^ 53) / 2 ^ 24" by linarith
  also have "\<dots> = q0 * (1 / 2 ^ 53 + (1 + 1 / 2 ^ 53) / 2 ^ 24)" by (simp add: algebra_simps)
  also have "\<dots> \<le> q0 * (1 / 2 ^ 23)" using q0 by (intro mult_left_mono) simp_all
  also have "\<dots> = q0 / 2 ^ 23" by simp
  finally have err: "\<bar>q2 - 1 / H\<bar> \<le> (1 / H) / 2 ^ 23" by (simp only: q0_def)
  have "float_of_double (ddiv (Finite 1) (Finite H)) = Finite q2"
    using Hpos by (simp add: q2_def q1_def q0_def)
  then have "float_of_double (ddiv (Finite 1) (double_of_unsigned hgt)) = Finite q2"
    by (simp only: double_of_unsigned_def H_def)
  with err show ?thesis unfolding H_def by blast
qed

lemma do_deinterlace_uniform:
  assumes "do_deinterlace_and_color_conversion env static_c vout pic = Some (c', tr)"
  shows "glUniform1f
           (env_glGetUniformLocation env (sh_program (gl_deint (sys_gl vout))) ''line_height'')
           (float_of_double (ddiv (Finite 1) (double_of_unsigned (i_height (pic_format pic)))))
         \<in> set tr"
  using assms
  by (auto simp: do_deinterlace_and_color_conversion_def Let_def split: option.splits)

text \<open>
  Claim C5. For every sampled coordinate the fragment computation of \<^verbatim>\<open>fragment_deint\<close>
  blends the Y samples of the current row and of the next row with weight 0.5, blends the
  U and the V samples of the current row and of the row two rows down with weight 0.5, the
  rows being offset by the uniform \<^verbatim>\<open>line_height\<close>, then applies the BT.601 transform
  \<open>Y' = 1.1643 (Y - 0.0625)\<close>, \<open>U' = U - 0.5\<close>, \<open>V' = V - 0.5\<close>, \<open>R = Y' + 1.5958 V'\<close>,
  \<open>G = Y' - 0.39173 U' - 0.81290 V'\<close>, \<open>B = Y' + 2.017 U'\<close> and outputs \<open>(R, G, B, 1)\<close>. Every
  completed render pass \<^verbatim>\<open>do_deinterlace_and_color_conversion\<close> sets that uniform to the
  \<^verbatim>\<open>float\<close> nearest to the \<^verbatim>\<open>double\<close> \<open>1.0 / height\<close>, \<open>height\<close> being the height of the picture's
  format; for a non-zero height this is \<open>1 / height\<close> within a relative error of \<open>2\<^sup>-\<^sup>2\<^sup>3\<close>.
\<close>

theorem fragment_deint_bt601:
  "fragment_deint_main s_ytex s_utex s_vtex line_height (cx, cy) =
     (let Y = 0.5 * s_ytex (cx, cy) + 0.5 * s_ytex (cx, cy + line_height);
          U = 0.5 * s_utex (cx, cy) + 0.5 * s_utex (cx, cy + 2 * line_height);
          V = 0.5 * s_vtex (cx, cy) + 0.5 * s_vtex (cx, cy + 2 * line_height);
          Y' = 1.1643 * (Y - 0.0625);
          U' = U - 0.5;
          V' = V - 0.5
      in (Y' + 1.5958 * V', Y' - 0.39173 * U' - 0.81290 * V', Y' + 2.017 * U', 1))
   \<and> (\<forall>c' tr. do_deinterlace_and_color_conversion env static_c vout pic = Some (c', tr) \<longrightarrow>
         glUniform1f
           (env_glGetUniformLocation env (sh_program (gl_deint (sys_gl vout))) ''line_height'')
           (float_of_double (ddiv (Finite 1) (double_of_unsigned (i_height (pic_format pic)))))
         \<in> set tr)
   \<and> (i_height (pic_format pic) \<noteq> 0 \<longrightarrow>
        (\<exists>lh. float_of_double (ddiv (Finite 1) (double_of_unsigned (i_height (pic_format pic))))
                = Finite lh
           \<and> \<bar>lh - 1 / of_nat (unat (i_height (pic_format pic)))\<bar>
              \<le> (1 / of_nat (unat (i_height (pic_format pic)))) / 2 ^ 23))"
proof (intro conjI allI impI)
  show "fragment_deint_main s_ytex s_utex s_vtex line_height (cx, cy) =
     (let Y = 0.5 * s_ytex (cx, cy) + 0.5 * s_ytex (cx, cy + line_height);
          U = 0.5 * s_utex (cx, cy) + 0.5 * s_utex (cx, cy + 2 * line_height);
          V = 0.5 * s_vtex (cx, cy) + 0.5 * s_vtex (cx, cy + 2 * line_height);
          Y' = 1.1643 * (Y - 0.0625);
          U' = U - 0.5;
          V' = V - 0.5
      in (Y' + 1.5958 * V', Y' - 0.39173 * U' - 0.81290 * V', Y' + 2.017 * U', 1))"
    by (simp add: fragment_deint_main_def mix_def Let_def algebra_simps)
next
  fix c' tr
  assume "do_deinterlace_and_color_conversion env static_c vout pic = Some (c', tr)"
  then show "glUniform1f
           (env_glGetUniformLocation env (sh_program (gl_deint (sys_gl vout))) ''line_height'')
           (float_of_double (ddiv (Finite 1) (double_of_unsigned (i_height (pic_format pic)))))
         \<in> set tr"
    by (rule do_deinterlace_uniform)
next
  assume "i_height (pic_format pic) \<noteq> 0"
  then show "\<exists>lh. float_of_double (ddiv (Finite 1) (double_of_unsigned (i_height (pic_format pic))))
                = Finite lh
           \<and> \<bar>lh - 1 / of_nat (unat (i_height (pic_format pic)))\<bar>
              \<le> (1 / of_nat (unat (i_height (pic_format pic)))) / 2 ^ 23"
    by (rule line_height_value)
qed

theorem fragment_deint_bt601_witness:
  "fragment_deint_main snd snd (\<lambda>c. 1) (1 / 2) (0, 0)
     = (162593 / 160000, - 30103 / 160000, 34929 / 160000, 1)
   \<and> (\<exists>c' tr. do_deinterlace_and_color_conversion example_env None
                 (example_sys (example_format 8 2)) example_picture = Some (c', tr)
        \<and> glUniform1f 7 (float_of_double (ddiv (Finite 1) (double_of_unsigned 2))) \<in> set tr)
   \<and> (\<exists>lh. float_of_double (ddiv (Finite 1) (double_of_unsigned 2)) = Finite lh
        \<and> \<bar>lh - 1 / 2\<bar> \<le> 1 / 2 ^ 24)"
proof -
  note inst = fragment_deint_bt601 [of snd snd "\<lambda>c. 1" "1 / 2" 0 0 example_env None
      "example_sys (example_format 8 2)" example_picture]
  have h: "i_height (pic_format example_picture) = 2"
    by (simp add: example_picture_def example_format_def)
  have l: "env_glGetUniformLocation example_env
             (sh_program (gl_deint (sys_gl (example_sys (example_format 8 2))))) ''line_height'' = 7"
    by (simp add: example_env_def)
  have "\<exists>r. do_deinterlace_and_color_conversion example_env None
                 (example_sys (example_format 8 2)) example_picture = Some r"
    by (simp add: do_deinterlace_and_color_conversion_def update_textures_def Let_def
        example_defs upload_eval)
  then obtain c' tr where d: "do_deinterlace_and_color_conversion example_env None
                 (example_sys (example_format 8 2)) example_picture = Some (c', tr)"
    by (metis prod.exhaust)
  from inst d have "glUniform1f 7 (float_of_double (ddiv (Finite 1) (double_of_unsigned 2))) \<in> set tr"
    unfolding h l by blast
  with d have 2: "\<exists>c' tr. do_deinterlace_and_color_conversion example_env None
                 (example_sys (example_format 8 2)) example_picture = Some (c', tr)
        \<and> glUniform1f 7 (float_of_double (ddiv (Finite 1) (double_of_unsigned 2))) \<in> set tr"
    by blast
  from inst have 1: "fragment_deint_main snd snd (\<lambda>c. 1) (1 / 2) (0, 0)
     = (162593 / 160000, - 30103 / 160000, 34929 / 160000, 1)"
    by (simp add: Let_def)
  from inst have "\<exists>lh. float_of_double (ddiv (Finite 1) (double_of_unsigned 2)) = Finite lh
        \<and> \<bar>lh - 1 / of_nat (unat (2 :: 32 word))\<bar> \<le> (1 / of_nat (unat (2 :: 32 word))) / 2 ^ 23"
    unfolding h by simp
  then have 3: "\<exists>lh. float_of_double (ddiv (Finite 1) (double_of_unsigned 2)) = Finite lh
        \<and> \<bar>lh - 1 / 2\<bar> \<le> 1 / 2 ^ 24"
    by simp
  from 1 2 3 show ?thesis by blast
qed

end
